theory Spec2Isabelle
  imports Main "HOL-Library.Word"
begin

section \<open>JavaScript values\<close>

text \<open>
  The library works on plain JSON-like data: GeoJSON features, an options object
  (\<open>params\<close>) and strings of XML. A value is one of the alternatives of \<open>jsval\<close>.
  Numbers are \<open>NaN\<close> and the integers from \<open>-2^53\<close> to \<open>2^53 - 1\<close>, kept as a word of
  54 bits that is read as a signed number: each of them is a double, and JavaScript
  prints it in plain decimal. Fractions, larger numbers, infinities and the negative
  zero are left out. An object is the list of its own enumerable properties in
  enumeration order, each key once, none of them named \<open>toString\<close> (which would take
  the place of the inherited conversion to a string). \<open>JError m\<close> is an \<open>Error\<close> object
  with message \<open>m\<close> (the value \<open>geomToGml\<close> builds for an unknown geometry type).

  \<open>JBuiltin t\<close> is an object of the engine itself, a built-in function or a prototype
  object, known by the text \<open>t\<close> that the conversion to a string gives it. These objects
  are not part of the data. The program comes by them when it reads a member that a
  value inherits from its prototype (\<open>properties['constructor']\<close>), and it does no
  more with them than test them and convert them to text.
\<close>

datatype jsval =
    JUndefined
  | JNull
  | JBool bool
  | JNum "54 word"
  | JNaN
  | JStr string
  | JArr "jsval list"
  | JObj "(string \<times> jsval) list"
  | JError string
  | JBuiltin string

text \<open>
  What the code throws. \<open>Error m\<close> is \<open>new Error(m)\<close>; \<open>ErrorJSON m v\<close> is
  \<open>new Error(m + JSON.stringify(v, null, 2))\<close>, kept with the value instead of its
  JSON text; \<open>TypeError\<close> is what the engine throws on a property read of
  \<open>undefined\<close>/\<open>null\<close>, on a call of a non-function and on iterating a
  non-iterable; \<open>RangeError\<close> is the exhausted call stack.
\<close>

datatype error = Error string | ErrorJSON string jsval | TypeError | RangeError

definition andThen :: "error + 'a \<Rightarrow> ('a \<Rightarrow> error + 'b) \<Rightarrow> error + 'b" where
  "andThen m f = (case m of Inl e \<Rightarrow> Inl e | Inr v \<Rightarrow> f v)"

fun truthy :: "jsval \<Rightarrow> bool" where
  "truthy JUndefined = False"
| "truthy JNull = False"
| "truthy (JBool b) = b"
| "truthy (JNum n) = (n \<noteq> 0)"
| "truthy JNaN = False"
| "truthy (JStr s) = (s \<noteq> [])"
| "truthy (JArr xs) = True"
| "truthy (JObj kvs) = True"
| "truthy (JError m) = True"
| "truthy (JBuiltin t) = True"

text \<open>\<open>a || b\<close> on values already computed.\<close>

definition js_or :: "jsval \<Rightarrow> jsval \<Rightarrow> jsval" where
  "js_or a b = (if truthy a then a else b)"

subsection \<open>Conversion to string\<close>

fun join_str :: "string \<Rightarrow> string list \<Rightarrow> string" where
  "join_str sep [] = []"
| "join_str sep [x] = x"
| "join_str sep (x # y # ys) = x @ sep @ join_str sep (y # ys)"

definition digit_char :: "nat \<Rightarrow> char" where
  "digit_char d = ''0123456789'' ! d"

fun nat_to_string :: "nat \<Rightarrow> string" where
  "nat_to_string n =
     (if n < 10 then [digit_char n] else nat_to_string (n div 10) @ [digit_char (n mod 10)])"

declare nat_to_string.simps [simp del]

definition int_to_string :: "int \<Rightarrow> string" where
  "int_to_string i = (if i < 0 then CHR ''-'' # nat_to_string (nat (- i)) else nat_to_string (nat i))"

text \<open>
  \<open>ToString\<close>: what string concatenation, template literals, \<open>join\<close> and
  \<open>RegExp.prototype.exec\<close> apply to their operand. An array is its elements joined by
  commas, \<open>undefined\<close> and \<open>null\<close> elements giving the empty string; a plain object is
  \<open>[object Object]\<close>.
\<close>

fun to_string :: "jsval \<Rightarrow> string" where
  "to_string JUndefined = ''undefined''"
| "to_string JNull = ''null''"
| "to_string (JBool b) = (if b then ''true'' else ''false'')"
| "to_string (JNum n) = int_to_string (sint n)"
| "to_string JNaN = ''NaN''"
| "to_string (JStr s) = s"
| "to_string (JArr xs) =
     join_str '',''
       (map (\<lambda>x. if x = JUndefined \<or> x = JNull then [] else to_string x) xs)"
| "to_string (JObj kvs) = ''[object Object]''"
| "to_string (JError m) = (if m = [] then ''Error'' else ''Error: '' @ m)"
| "to_string (JBuiltin t) = t"

text \<open>\<open>xs.join(sep)\<close> on the elements of an array.\<close>

definition array_join :: "string \<Rightarrow> jsval list \<Rightarrow> string" where
  "array_join sep xs =
     join_str sep (map (\<lambda>x. if x = JUndefined \<or> x = JNull then [] else to_string x) xs)"

subsection \<open>Properties\<close>

text \<open>\<open>xs[i]\<close> on an array: \<open>undefined\<close> beyond its length.\<close>

definition index :: "jsval list \<Rightarrow> nat \<Rightarrow> jsval" where
  "index xs i = (if i < length xs then xs ! i else JUndefined)"

text \<open>The own enumerable properties, in the order of \<open>Object.keys\<close>.\<close>

fun own_entries :: "jsval \<Rightarrow> (string \<times> jsval) list" where
  "own_entries (JObj kvs) = kvs"
| "own_entries (JArr xs) = zip (map nat_to_string [0..<length xs]) xs"
| "own_entries (JStr s) = zip (map nat_to_string [0..<length s]) (map (\<lambda>c. JStr [c]) s)"
| "own_entries v = []"

text \<open>The value stored under a key of a property list, \<open>undefined\<close> when there is none.\<close>

definition lookup :: "(string \<times> jsval) list \<Rightarrow> string \<Rightarrow> jsval" where
  "lookup kvs k = (case map_of kvs k of Some v \<Rightarrow> v | None \<Rightarrow> JUndefined)"

subsection \<open>Inherited members\<close>

text \<open>
  A property that a value does not have itself is looked up in its prototype:
  \<open>Object.prototype\<close> for an object, and \<open>Array.prototype\<close>, \<open>String.prototype\<close>,
  \<open>Number.prototype\<close> and \<open>Boolean.prototype\<close> for an array, a string, a number and
  a boolean, each of which inherits from \<open>Object.prototype\<close> in turn. The members are
  those of ECMAScript 2024. All of them are functions, except \<open>__proto__\<close>, which
  gives the prototype object. A built-in function \<open>f\<close> is converted to the text
  \<open>function f() { [native code] }\<close> (the form that V8 prints; the wrapper that the
  bundle's copy of core-js puts around \<open>Function.prototype.toString\<close> hands this text
  through).
\<close>

definition native :: "string \<Rightarrow> jsval" where
  "native f = JBuiltin (''function '' @ f @ ''() { [native code] }'')"

definition object_prototype_functions :: "string list" where
  "object_prototype_functions =
     [''__defineGetter__'', ''__defineSetter__'', ''hasOwnProperty'', ''__lookupGetter__'',
      ''__lookupSetter__'', ''isPrototypeOf'', ''propertyIsEnumerable'', ''toString'',
      ''valueOf'', ''toLocaleString'']"

definition array_prototype_functions :: "string list" where
  "array_prototype_functions =
     [''at'', ''concat'', ''copyWithin'', ''fill'', ''find'', ''findIndex'', ''findLast'',
      ''findLastIndex'', ''lastIndexOf'', ''pop'', ''push'', ''reverse'', ''shift'',
      ''unshift'', ''slice'', ''sort'', ''splice'', ''includes'', ''indexOf'', ''join'',
      ''keys'', ''entries'', ''values'', ''forEach'', ''filter'', ''flat'', ''flatMap'',
      ''map'', ''every'', ''some'', ''reduce'', ''reduceRight'', ''toReversed'',
      ''toSorted'', ''toSpliced'', ''with'']"

definition string_prototype_functions :: "string list" where
  "string_prototype_functions =
     [''anchor'', ''at'', ''big'', ''blink'', ''bold'', ''charAt'', ''charCodeAt'',
      ''codePointAt'', ''concat'', ''endsWith'', ''fontcolor'', ''fontsize'', ''fixed'',
      ''includes'', ''indexOf'', ''isWellFormed'', ''italics'', ''lastIndexOf'', ''link'',
      ''localeCompare'', ''match'', ''matchAll'', ''normalize'', ''padEnd'', ''padStart'',
      ''repeat'', ''replace'', ''replaceAll'', ''search'', ''slice'', ''small'', ''split'',
      ''strike'', ''sub'', ''substr'', ''substring'', ''sup'', ''startsWith'',
      ''toWellFormed'', ''trim'', ''trimStart'', ''trimEnd'', ''toLocaleLowerCase'',
      ''toLocaleUpperCase'', ''toLowerCase'', ''toUpperCase'']"

definition number_prototype_functions :: "string list" where
  "number_prototype_functions = [''toExponential'', ''toFixed'', ''toPrecision'']"

text \<open>
  The member \<open>k\<close> of a prototype with the constructor \<open>ctor\<close> and the functions
  \<open>functions\<close> of its own, \<open>proto\<close> being the text of the prototype object itself.
\<close>

definition from_prototype :: "string \<Rightarrow> string list \<Rightarrow> string \<Rightarrow> string \<Rightarrow> jsval" where
  "from_prototype ctor functions proto k =
     (if k = ''constructor'' then native ctor
      else if k = ''__proto__'' then JBuiltin proto
      else if k \<in> set functions \<or> k \<in> set object_prototype_functions then native k
      else JUndefined)"

text \<open>
  \<open>trimLeft\<close> and \<open>trimRight\<close> are second names of the functions \<open>trimStart\<close> and
  \<open>trimEnd\<close>. The members of an \<open>Error\<close> object and of a built-in object are never
  read by this program and are left out.
\<close>

fun inherited :: "jsval \<Rightarrow> string \<Rightarrow> jsval" where
  "inherited (JObj kvs) k = from_prototype ''Object'' [] ''[object Object]'' k"
| "inherited (JArr xs) k = from_prototype ''Array'' array_prototype_functions [] k"
| "inherited (JStr s) k =
     (if k = ''trimLeft'' then native ''trimStart''
      else if k = ''trimRight'' then native ''trimEnd''
      else from_prototype ''String'' string_prototype_functions [] k)"
| "inherited (JNum n) k = from_prototype ''Number'' number_prototype_functions ''0'' k"
| "inherited JNaN k = from_prototype ''Number'' number_prototype_functions ''0'' k"
| "inherited (JBool b) k = from_prototype ''Boolean'' [] ''false'' k"
| "inherited v k = JUndefined"

text \<open>The own property of a value under a key if it has one, the inherited member otherwise.\<close>

definition property :: "jsval \<Rightarrow> string \<Rightarrow> jsval" where
  "property v k = (case map_of (own_entries v) k of Some x \<Rightarrow> x | None \<Rightarrow> inherited v k)"

text \<open>
  \<open>v[k]\<close> for a string key: a \<open>TypeError\<close> on \<open>undefined\<close> and \<open>null\<close>; otherwise the
  own property, or else the inherited member, or else \<open>undefined\<close>. The \<open>length\<close> of an
  array and of a string is a property of their own that is not enumerable.
\<close>

fun get :: "jsval \<Rightarrow> string \<Rightarrow> error + jsval" where
  "get JUndefined k = Inl TypeError"
| "get JNull k = Inl TypeError"
| "get (JArr xs) k =
     Inr (if k = ''length'' then JNum (of_nat (length xs)) else property (JArr xs) k)"
| "get (JStr s) k =
     Inr (if k = ''length'' then JNum (of_nat (length s)) else property (JStr s) k)"
| "get v k = Inr (property v k)"

text \<open>\<open>Object.keys(v)\<close>.\<close>

definition object_keys :: "jsval \<Rightarrow> error + string list" where
  "object_keys v =
     (if v = JUndefined \<or> v = JNull then Inl TypeError else Inr (map fst (own_entries v)))"

text \<open>
  \<open>o[k] = v\<close> on the property list: an existing key keeps its place. (The one key that
  an assignment does not store is \<open>__proto__\<close>, which the program never assigns.)
\<close>

fun obj_set :: "string \<Rightarrow> jsval \<Rightarrow> (string \<times> jsval) list \<Rightarrow> (string \<times> jsval) list" where
  "obj_set k v [] = [(k, v)]"
| "obj_set k v ((k', v') # kvs) =
     (if k' = k then (k, v) # kvs else (k', v') # obj_set k v kvs)"

text \<open>A parameter with the default \<open>{}\<close>, which replaces \<open>undefined\<close> only.\<close>

definition default_obj :: "jsval \<Rightarrow> jsval" where
  "default_obj p = (if p = JUndefined then JObj [] else p)"

section \<open>Coordinates\<close>

text \<open>
  \<open>config.coordinateOrder\<close> is the module's flag. The object \<open>config\<close> is a constant
  of the module, initialised with the flag \<open>true\<close>; it is not exported and nothing
  assigns the flag, so it is \<open>true\<close> in every call. \<open>orderCoords\<close> reads the flag, and
  the model takes it as an argument, for which the program always supplies
  \<open>coordinateOrder_config\<close>. The function returns the pair of its result and of the
  caller's array after the call: \<open>coords.reverse()\<close> reverses the array in place and
  returns that same array.
\<close>

definition coordinateOrder_config :: bool where
  "coordinateOrder_config = True"

definition orderCoords :: "bool \<Rightarrow> jsval list \<Rightarrow> jsval list \<times> jsval list" where
  "orderCoords coordinateOrder coords =
     (if coordinateOrder then (coords, coords)
      else if truthy (index coords 2)
        then ([index coords 1, index coords 0, index coords 2], coords)
      else (rev coords, rev coords))"

section \<open>GML geometry encoding\<close>

text \<open>
  The attribute list of the GML module: a template literal per attribute, so the
  value is converted to a string and not escaped; a falsy value gives no attribute.
\<close>

definition attrs :: "(string \<times> jsval) list \<Rightarrow> string" where
  \<open>attrs attrMappings =
     concat (map (\<lambda>(attrName, v).
        if truthy v then '' '' @ attrName @ ''="'' @ to_string v @ ''"'' else []) attrMappings)\<close>

fun map_res :: "('a \<Rightarrow> error + 'b) \<Rightarrow> 'a list \<Rightarrow> error + 'b list" where
  "map_res f [] = Inr []"
| "map_res f (x # xs) =
     (case f x of Inl e \<Rightarrow> Inl e
      | Inr y \<Rightarrow> (case map_res f xs of Inl e \<Rightarrow> Inl e | Inr ys \<Rightarrow> Inr (y # ys)))"

text \<open>
  \<open>orderCoords(e).join(' ')\<close> under the module's flag: a tuple that is not an array
  has no \<open>join\<close>.
\<close>

definition coords_text :: "jsval \<Rightarrow> error + string" where
  "coords_text e =
     (case e of
        JArr xs \<Rightarrow> Inr (array_join '' '' (fst (orderCoords coordinateOrder_config xs)))
      | _ \<Rightarrow> Inl TypeError)"

text \<open>\<open>coords.map((e) => orderCoords(e).join(' ')).join(' ')\<close>.\<close>

definition posList_text :: "jsval \<Rightarrow> error + string" where
  "posList_text coords =
     (case coords of
        JArr es \<Rightarrow> andThen (map_res coords_text es) (\<lambda>ts. Inr (join_str '' '' ts))
      | _ \<Rightarrow> Inl TypeError)"

definition Point :: "jsval \<Rightarrow> jsval \<Rightarrow> jsval \<Rightarrow> error + string" where
  "Point coords gmlId params0 =
     (let params = default_obj params0 in
      andThen (get params ''srsName'') (\<lambda>srsName.
      andThen (get params ''srsDimension'') (\<lambda>srsDimension.
      andThen (coords_text coords) (\<lambda>pos.
        Inr (''<gml:Point'' @ attrs [(''srsName'', srsName), (''gml:id'', gmlId)] @ ''>''
             @ ''<gml:pos'' @ attrs [(''srsDimension'', srsDimension)] @ ''>''
             @ pos @ ''</gml:pos>'' @ ''</gml:Point>'')))))"

definition LineString :: "jsval \<Rightarrow> jsval \<Rightarrow> jsval \<Rightarrow> error + string" where
  "LineString coords gmlId params0 =
     (let params = default_obj params0 in
      andThen (get params ''srsName'') (\<lambda>srsName.
      andThen (get params ''srsDimension'') (\<lambda>srsDimension.
      andThen (posList_text coords) (\<lambda>posList.
        Inr (''<gml:LineString'' @ attrs [(''srsName'', srsName), (''gml:id'', gmlId)] @ ''>''
             @ ''<gml:posList'' @ attrs [(''srsDimension'', srsDimension)] @ ''>''
             @ posList @ ''</gml:posList>'' @ ''</gml:LineString>'')))))"

definition LinearRing :: "jsval \<Rightarrow> jsval \<Rightarrow> jsval \<Rightarrow> error + string" where
  "LinearRing coords gmlId params0 =
     (let params = default_obj params0 in
      andThen (get params ''srsName'') (\<lambda>srsName.
      andThen (get params ''srsDimension'') (\<lambda>srsDimension.
      andThen (posList_text coords) (\<lambda>posList.
        Inr (''<gml:LinearRing'' @ attrs [(''gml:id'', gmlId), (''srsName'', srsName)] @ ''>''
             @ ''<gml:posList'' @ attrs [(''srsDimension'', srsDimension)] @ ''>''
             @ posList @ ''</gml:posList>'' @ ''</gml:LinearRing>'')))))"

text \<open>
  The rings are encoded without id and without parameters. The payload is taken to
  be an array: an array-like object in its place is not modelled.
\<close>

definition Polygon :: "jsval \<Rightarrow> jsval \<Rightarrow> jsval \<Rightarrow> error + string" where
  "Polygon coords gmlId params0 =
     (let params = default_obj params0 in
      andThen (get params ''srsName'') (\<lambda>srsName.
      case coords of
        JArr rings \<Rightarrow>
          andThen (LinearRing (index rings 0) JUndefined JUndefined) (\<lambda>exterior.
          andThen (map_res (\<lambda>linearRing. LinearRing linearRing JUndefined JUndefined)
                     (if length rings \<ge> 2 then drop 1 rings else [])) (\<lambda>interiors.
            Inr (''<gml:Polygon'' @ attrs [(''srsName'', srsName), (''gml:id'', gmlId)] @ ''>''
                 @ ''<gml:exterior>'' @ exterior @ ''</gml:exterior>''
                 @ concat (map (\<lambda>r. ''<gml:interior>'' @ r @ ''</gml:interior>'') interiors)
                 @ ''</gml:Polygon>'')))
      | _ \<Rightarrow> Inl TypeError))"

text \<open>The keys of the dispatch table \<open>converter\<close>.\<close>

datatype kind =
    KPoint | KLineString | KLinearRing | KPolygon
  | KMultiPoint | KMultiLineString | KMultiPolygon | KGeometryCollection

definition converter :: "string \<Rightarrow> kind option" where
  "converter t =
     map_of [(''Point'', KPoint), (''LineString'', KLineString), (''LinearRing'', KLinearRing),
             (''Polygon'', KPolygon), (''MultiPoint'', KMultiPoint),
             (''MultiLineString'', KMultiLineString), (''MultiPolygon'', KMultiPolygon),
             (''GeometryCollection'', KGeometryCollection)] t"

text \<open>
  The table is an object, so \<open>converter[t]\<close> is also defined for the names \<open>t\<close> of the
  members it inherits from \<open>Object.prototype\<close>. \<open>geomToGml\<close> calls such a member as a
  plain function, with \<open>this\<close> undefined (the bundle is a module, hence strict code)
  and the payload as first argument: \<open>constructor\<close> is \<open>Object\<close>, which returns its
  argument (a new empty object for \<open>undefined\<close> and \<open>null\<close>; an object that wraps a
  primitive value is represented by that value, as only its text is used);
  \<open>toString\<close> returns \<open>[object Undefined]\<close>; \<open>isPrototypeOf\<close> returns \<open>false\<close> for an
  argument that is not an object; every other call is a \<open>TypeError\<close>, as is the call of
  the prototype object stored under \<open>__proto__\<close>.
\<close>

definition is_object :: "jsval \<Rightarrow> bool" where
  "is_object v =
     (case v of JArr xs \<Rightarrow> True | JObj kvs \<Rightarrow> True | JError m \<Rightarrow> True | JBuiltin t \<Rightarrow> True
      | _ \<Rightarrow> False)"

definition Object_call :: "jsval \<Rightarrow> jsval" where
  "Object_call v = (if v = JUndefined \<or> v = JNull then JObj [] else v)"

definition call_inherited :: "string \<Rightarrow> jsval \<Rightarrow> error + jsval" where
  "call_inherited t arg =
     (if t = ''constructor'' then Inr (Object_call arg)
      else if t = ''toString'' then Inr (JStr ''[object Undefined]'')
      else if t = ''isPrototypeOf'' \<and> \<not> is_object arg then Inr (JBool False)
      else Inl TypeError)"

text \<open>
  \<open>multi\<close> calls \<open>membercb[memberType]\<close> as a method of the table, so \<open>this\<close> is the
  table: \<open>toString\<close> and \<open>toLocaleString\<close> return \<open>[object Object]\<close>, \<open>valueOf\<close> the
  table itself; \<open>hasOwnProperty\<close> and \<open>propertyIsEnumerable\<close> tell whether the text of
  the argument is one of the eight keys; \<open>isPrototypeOf\<close> returns \<open>false\<close>;
  \<open>__lookupGetter__\<close> and \<open>__lookupSetter__\<close> return \<open>undefined\<close>, except for the
  accessor \<open>__proto__\<close>; \<open>__defineGetter__\<close> and \<open>__defineSetter__\<close> reject their
  second argument, which is no function.
\<close>

definition call_inherited_method :: "string \<Rightarrow> jsval \<Rightarrow> error + jsval" where
  "call_inherited_method t arg =
     (if t = ''constructor'' then Inr (Object_call arg)
      else if t = ''toString'' \<or> t = ''toLocaleString'' then Inr (JStr ''[object Object]'')
      else if t = ''valueOf'' then Inr (JBuiltin ''[object Object]'')
      else if t = ''hasOwnProperty'' \<or> t = ''propertyIsEnumerable''
        then Inr (JBool (converter (to_string arg) \<noteq> None))
      else if t = ''isPrototypeOf'' then Inr (JBool False)
      else if t = ''__lookupGetter__''
        then Inr (if to_string arg = ''__proto__'' then native ''get __proto__'' else JUndefined)
      else if t = ''__lookupSetter__''
        then Inr (if to_string arg = ''__proto__'' then native ''set __proto__'' else JUndefined)
      else Inl TypeError)"

text \<open>
  \<open>convert k\<close> is the function stored under the key \<open>k\<close>. \<open>multi\<close> receives its
  \<open>membercb\<close> as \<open>Some k\<close> (one of these functions) or \<open>None\<close> (the table
  \<open>converter\<close> itself, passed by \<open>GeometryCollection\<close> and used when the name is
  \<open>MultiGeometry\<close>); \<open>multi_members\<close> is its \<open>forEach\<close>, with the index \<open>i\<close> and the
  text accumulated so far. Calling an entry that the table neither has nor inherits is
  a \<open>TypeError\<close>.
\<close>

function convert :: "kind \<Rightarrow> jsval \<Rightarrow> jsval \<Rightarrow> jsval \<Rightarrow> error + string"
  and multi :: "string \<Rightarrow> string \<Rightarrow> kind option \<Rightarrow> jsval \<Rightarrow> jsval \<Rightarrow> jsval \<Rightarrow> error + string"
  and multi_members ::
    "string \<Rightarrow> kind option \<Rightarrow> jsval \<Rightarrow> jsval \<Rightarrow> jsval list \<Rightarrow> nat \<Rightarrow> string \<Rightarrow> error + string"
where
  "convert KPoint coords gmlId params = Point coords gmlId params"
| "convert KLineString coords gmlId params = LineString coords gmlId params"
| "convert KLinearRing coords gmlId params = LinearRing coords gmlId params"
| "convert KPolygon coords gmlId params = Polygon coords gmlId params"
| "convert KMultiPoint coords gmlId params =
     multi ''MultiPoint'' ''pointMembers'' (Some KPoint) coords gmlId (default_obj params)"
| "convert KMultiLineString coords gmlId params =
     multi ''MultiCurve'' ''curveMembers'' (Some KLineString) coords gmlId (default_obj params)"
| "convert KMultiPolygon coords gmlId params =
     multi ''MultiSurface'' ''surfaceMembers'' (Some KPolygon) coords gmlId (default_obj params)"
| "convert KGeometryCollection geoms gmlId params =
     multi ''MultiGeometry'' ''geometryMembers'' None geoms gmlId (default_obj params)"
| "multi name memberName membercb geom gmlId params0 =
     (let params = default_obj params0 in
      (case get params ''srsName'' of
         Inl e \<Rightarrow> Inl e
       | Inr srsName \<Rightarrow>
          (case get params ''gmlIds'' of
             Inl e \<Rightarrow> Inl e
           | Inr gmlIds \<Rightarrow>
              (case geom of
                 JArr members \<Rightarrow>
                   (case multi_members name membercb gmlIds params members 0
                           (''<gml:'' @ name
                            @ attrs [(''srsName'', srsName), (''gml:id'', gmlId)] @ ''>''
                            @ ''<gml:'' @ memberName @ ''>'') of
                      Inl e \<Rightarrow> Inl e
                    | Inr m \<Rightarrow>
                        Inr (m @ ''</gml:'' @ memberName @ ''>'' @ ''</gml:'' @ name @ ''>''))
               | _ \<Rightarrow> Inl TypeError))))"
| "multi_members name membercb gmlIds params [] i acc = Inr acc"
| "multi_members name membercb gmlIds params (member # members) i acc =
     (case get member ''id'' of
        Inl e \<Rightarrow> Inl e
      | Inr member_id \<Rightarrow>
         (case get (js_or gmlIds (JArr [])) (nat_to_string i) of
            Inl e \<Rightarrow> Inl e
          | Inr ith \<Rightarrow>
             (let gmlId = js_or (js_or member_id ith) (JStr []) in
              (case (if name = ''MultiGeometry'' then
                       (case get member ''type'' of
                          Inl e \<Rightarrow> Inl e
                        | Inr memberType \<Rightarrow>
                           (case get member ''coordinates'' of
                              Inl e \<Rightarrow> Inl e
                            | Inr member' \<Rightarrow>
                               (case membercb of
                                  None \<Rightarrow>
                                    (case converter (to_string memberType) of
                                       None \<Rightarrow>
                                         (case call_inherited_method
                                                 (to_string memberType) member' of
                                            Inl e \<Rightarrow> Inl e
                                          | Inr r \<Rightarrow> Inr (to_string r))
                                     | Some k \<Rightarrow> convert k member' gmlId params)
                                | Some k \<Rightarrow> Inl TypeError)))
                     else
                       (case membercb of
                          None \<Rightarrow> Inl TypeError
                        | Some k \<Rightarrow> convert k member gmlId params)) of
                 Inl e \<Rightarrow> Inl e
               | Inr s \<Rightarrow>
                   multi_members name membercb gmlIds params members (Suc i) (acc @ s)))))"
  by pat_completeness auto

termination
proof -
  have elem: "\<And>(x::jsval) xs. x \<in> set xs \<Longrightarrow> size x \<le> size_list size xs"
    by (simp add: size_list_estimation')
  have mo: "\<And>kvs k (v::jsval). map_of kvs k = Some v \<Longrightarrow> size v \<le> size (JObj kvs)"
  proof -
    fix kvs :: "(string \<times> jsval) list" and k v
    assume "map_of kvs k = Some v"
    then have "(k, v) \<in> set kvs" by (rule map_of_SomeD)
    then have "size_prod (\<lambda>x. 0) size (k, v) \<le> size_list (size_prod (\<lambda>x. 0) size) kvs"
      by (simp add: size_list_estimation')
    then show "size v \<le> size (JObj kvs)" by simp
  qed
  have zipd: "\<And>ks (xs::jsval list) k v. map_of (zip ks xs) k = Some v \<Longrightarrow> v \<in> set xs"
    by (meson in_set_zipE map_of_SomeD)
  have inh: "\<And>v k. size (inherited v k) = 0"
  proof -
    fix v k
    show "size (inherited v k) = 0"
      by (cases v) (simp_all add: from_prototype_def native_def)
  qed
  have sz: "\<And>v k (c::jsval). get v k = Inr c \<Longrightarrow> size c \<le> size v"
  proof -
    fix v k and c :: jsval
    assume g: "get v k = Inr c"
    show "size c \<le> size v"
    proof (cases v)
      case (JArr xs)
      with g elem [of c xs] zipd [of "map nat_to_string [0..<length xs]" xs k c]
        inh [of "JArr xs" k]
      show ?thesis
        by (auto simp: property_def split: if_splits option.splits)
    next
      case (JStr s)
      with g zipd [of "map nat_to_string [0..<length s]" "map (\<lambda>c. JStr [c]) s" k c]
        inh [of "JStr s" k]
      show ?thesis by (auto simp: property_def split: if_splits option.splits)
    next
      case (JObj kvs)
      with g mo [of kvs k c] inh [of "JObj kvs" k]
      show ?thesis by (auto simp: property_def split: option.splits)
    qed (use g inh [of v k] in \<open>auto simp: property_def split: option.splits\<close>)
  qed
  show ?thesis
    apply (relation "measure (\<lambda>x. case x of
               Inl (k, c, g, p) \<Rightarrow> 3 * size c + 2
             | Inr (Inl (n, mn, cb, geom, g, p)) \<Rightarrow> 3 * size geom + 1
             | Inr (Inr (n, cb, ids, p, ms, i, acc)) \<Rightarrow> 3 * size_list size ms)")
    apply (auto dest: sz)
    done
qed

text \<open>
  \<open>geomToGml\<close>: for a type that the table neither has as a key nor inherits,
  \<open>convert\<close> is the arrow function \<open>warn\<close>, which builds an \<open>Error\<close> object and
  returns it. Nothing is thrown: the call returns that object.
\<close>

definition geomToGml :: "jsval \<Rightarrow> jsval \<Rightarrow> jsval \<Rightarrow> error + jsval" where
  "geomToGml geom gmlId params =
     andThen (get geom ''type'') (\<lambda>geom_type.
     andThen (get geom ''coordinates'') (\<lambda>coordinates.
     andThen (if truthy coordinates then Inr coordinates else get geom ''geometries'') (\<lambda>payload.
       case converter (to_string geom_type) of
         Some k \<Rightarrow> andThen (convert k payload gmlId params) (\<lambda>gml. Inr (JStr gml))
       | None \<Rightarrow>
           if inherited (JObj []) (to_string geom_type) \<noteq> JUndefined
           then call_inherited (to_string geom_type) payload
           else Inr (JError (''unkown: '' @ to_string geom_type @ '' ''
                             @ array_join '','' [geom, gmlId, params])))))"

section \<open>XML utilities\<close>

fun escape_char :: "char \<Rightarrow> string" where
  \<open>escape_char c =
     (if c = CHR ''<'' then ''&lt;''
      else if c = CHR ''>'' then ''&gt;''
      else if c = CHR ''&'' then ''&amp;''
      else if c = CHR 0x27 then ''&apos;''
      else if c = CHR ''"'' then ''&quot;''
      else [c])\<close>

text \<open>\<open>escape\<close> replaces the five characters in a string and returns any other value as it is.\<close>

definition escape :: "jsval \<Rightarrow> jsval" where
  "escape input = (case input of JStr s \<Rightarrow> JStr (concat (map escape_char s)) | _ \<Rightarrow> input)"

text \<open>\<open>attrs$1\<close>, the attribute list of the XML module: values are escaped.\<close>

definition attrs1 :: "(string \<times> jsval) list \<Rightarrow> string" where
  \<open>attrs1 attrsObj =
     concat (map (\<lambda>(a, v).
        if truthy v then '' '' @ a @ ''="'' @ to_string (escape v) @ ''"'' else []) attrsObj)\<close>

definition tag :: "jsval \<Rightarrow> jsval \<Rightarrow> (string \<times> jsval) list \<Rightarrow> jsval \<Rightarrow> error + string" where
  "tag ns tagName attrsObj inner =
     (let t = (if truthy ns then to_string ns @ '':'' else []) @ to_string tagName in
      if truthy tagName then
        Inr (''<'' @ t @ attrs1 attrsObj
             @ (if inner \<noteq> JNull then ''>'' @ to_string inner @ ''</'' @ t else '' /'') @ ''>'')
      else
        Inl (ErrorJSON ''no tag supplied ''
               (JObj [(''ns'', ns), (''tagName'', tagName),
                      (''attrsObj'', JObj attrsObj), (''inner'', inner)])))"

definition wfs :: "string \<Rightarrow> (string \<times> jsval) list \<Rightarrow> jsval \<Rightarrow> error + string" where
  "wfs tagName attrsObj inner = tag (JStr ''wfs'') (JStr tagName) attrsObj inner"

section \<open>Checks and coercions\<close>

text \<open>
  \<open>array\<close>: the \<open>features\<close> member of a collection, or the argument itself when it is
  an array, or the one-element array of it; falsy elements are dropped.
\<close>

definition array :: "jsval \<Rightarrow> error + jsval list" where
  "array maybe0 =
     andThen (get maybe0 ''features'') (\<lambda>fs.
       if truthy fs then (case fs of JArr xs \<Rightarrow> Inr (filter truthy xs) | _ \<Rightarrow> Inl TypeError)
       else Inr (filter truthy (case maybe0 of JArr xs \<Rightarrow> xs | v \<Rightarrow> [v])))"

text \<open>\<open>id$1\<close>: the id itself when its text contains a dot, the layer joined to it otherwise.\<close>

definition id1 :: "jsval \<Rightarrow> jsval \<Rightarrow> jsval" where
  "id1 lyr the_id =
     (if CHR ''.'' \<in> set (to_string (js_or the_id (JStr [])))
      then the_id else JStr (to_string lyr @ ''.'' @ to_string the_id))"

definition idFilter :: "jsval \<Rightarrow> jsval \<Rightarrow> string" where
  \<open>idFilter lyr the_id = ''<fes:ResourceId rid="'' @ to_string (id1 lyr the_id) @ ''"/>''\<close>

definition typeName :: "jsval \<Rightarrow> jsval \<Rightarrow> jsval \<Rightarrow> error + jsval" where
  "typeName ns layer tn =
     (if \<not> truthy tn \<and> \<not> (truthy ns \<and> truthy layer) then
        Inl (ErrorJSON ''no typename possible: ''
               (JObj [(''typeName'', tn), (''ns'', ns), (''layer'', layer)]))
      else Inr (js_or tn (JStr (to_string ns @ '':'' @ to_string layer @ ''Type''))))"

section \<open>Resolving attributes\<close>

definition featureMembers :: "string list" where
  "featureMembers = [''properties'', ''geometry'', ''id'', ''layer'']"

text \<open>
  One round of the loop of \<open>unpack\<close>: the value stored under \<open>arg\<close>. The operands of
  \<open>||\<close> are read from left to right and only as far as needed.
\<close>

definition unpack_arg :: "jsval \<Rightarrow> jsval \<Rightarrow> string \<Rightarrow> error + jsval" where
  "unpack_arg feature params arg =
     (if arg = ''layer'' then
        andThen (get params ''layer'') (\<lambda>params_layer.
        andThen (get (js_or params_layer (JObj [])) ''id'') (\<lambda>params_layer_id.
          if truthy params_layer_id then Inr params_layer_id
          else if truthy params_layer then Inr params_layer
          else
            andThen (get feature ''layer'') (\<lambda>feature_layer.
            andThen (get (js_or feature_layer (JObj [])) ''id'') (\<lambda>feature_layer_id.
              if truthy feature_layer_id then Inr feature_layer_id
              else Inr (js_or feature_layer (JStr []))))))
      else if arg \<notin> set featureMembers then
        andThen (get feature arg) (\<lambda>fv.
          if truthy fv then Inr fv
          else andThen (get params arg) (\<lambda>pv. Inr (js_or pv (JStr []))))
      else
        andThen (get params arg) (\<lambda>pv.
          if truthy pv then Inr pv
          else andThen (get feature arg) (\<lambda>fv. Inr (js_or fv (JStr [])))))"

fun unpack_loop ::
  "jsval \<Rightarrow> jsval \<Rightarrow> string list \<Rightarrow> (string \<times> jsval) list \<Rightarrow> error + jsval" where
  "unpack_loop feature params [] results = Inr (JObj results)"
| "unpack_loop feature params (arg # args) results =
     (case unpack_arg feature params arg of
        Inl e \<Rightarrow> Inl e
      | Inr v \<Rightarrow> unpack_loop feature params args (obj_set arg v results))"

definition unpack :: "jsval \<Rightarrow> jsval \<Rightarrow> string list \<Rightarrow> error + jsval" where
  "unpack feature params args = unpack_loop feature params args []"

section \<open>Filters\<close>

text \<open>
  \<open>filter\<close>: a truthy filter is returned as it is. Otherwise one \<open>fes:ResourceId\<close> per
  feature; the layer handed to \<open>idFilter\<close> is the whole result of
  \<open>unpack(feature, params)\<close>, called without any name, which is the empty object.
\<close>

fun filter_loop :: "jsval list \<Rightarrow> jsval \<Rightarrow> string \<Rightarrow> error + string" where
  "filter_loop [] params acc = Inr acc"
| "filter_loop (feature # features) params acc =
     (case unpack feature params [] of
        Inl e \<Rightarrow> Inl e
      | Inr layer \<Rightarrow>
         (case get feature ''id'' of
            Inl e \<Rightarrow> Inl e
          | Inr feature_id \<Rightarrow> filter_loop features params (acc @ idFilter layer feature_id)))"

definition filter_js :: "jsval \<Rightarrow> jsval list \<Rightarrow> jsval \<Rightarrow> error + jsval" where
  "filter_js flt features params =
     (if \<not> truthy flt then
        andThen (filter_loop features params [])
          (\<lambda>body. Inr (JStr (''<fes:Filter>'' @ body @ ''</fes:Filter>'')))
      else Inr flt)"

section \<open>Property iteration\<close>

text \<open>The values a \<open>for ... of\<close> loop visits: elements of an array, characters of a string.\<close>

definition iter_values :: "jsval \<Rightarrow> error + jsval list" where
  "iter_values v =
     (case v of JArr xs \<Rightarrow> Inr xs | JStr s \<Rightarrow> Inr (map (\<lambda>c. JStr [c]) s) | _ \<Rightarrow> Inl TypeError)"

text \<open>
  \<open>useWhitelistIfAvailable\<close>: the callback \<open>cb\<close> changes a variable of its caller
  (the text \<open>fields\<close>), which the model passes through as the state \<open>st\<close>.
\<close>

fun whitelist_loop ::
  "jsval list \<Rightarrow> jsval \<Rightarrow> (jsval \<Rightarrow> jsval \<Rightarrow> 's \<Rightarrow> error + 's) \<Rightarrow> 's \<Rightarrow> error + 's" where
  "whitelist_loop [] properties cb st = Inr st"
| "whitelist_loop (prop # props) properties cb st =
     (case get properties (to_string prop) of
        Inl e \<Rightarrow> Inl e
      | Inr val \<Rightarrow>
          if val = JNaN then Inl (Error ''NaN is not allowed.'')
          else if val \<noteq> JUndefined then
            (case cb prop val st of
               Inl e \<Rightarrow> Inl e
             | Inr st' \<Rightarrow> whitelist_loop props properties cb st')
          else whitelist_loop props properties cb st)"

definition useWhitelistIfAvailable ::
  "jsval \<Rightarrow> jsval \<Rightarrow> (jsval \<Rightarrow> jsval \<Rightarrow> 's \<Rightarrow> error + 's) \<Rightarrow> 's \<Rightarrow> error + 's" where
  "useWhitelistIfAvailable whitelist properties cb st =
     andThen (if truthy whitelist then iter_values whitelist
              else andThen (object_keys properties) (\<lambda>ks. Inr (map JStr ks)))
       (\<lambda>props. whitelist_loop props properties cb st)"

section \<open>Namespace assignments and schema locations\<close>

definition is_word_char :: "char \<Rightarrow> bool" where
  "is_word_char c =
     (c \<in> set ''abcdefghijklmnopqrstuvwxyzABCDEFGHIJKLMNOPQRSTUVWXYZ0123456789_'')"

text \<open>
  The regular expression \<open>/(<|typeName=")(\w+):/g\<close>. After the opening \<open><\<close> or
  \<open>typeName="\<close>, \<open>\w+\<close> takes the longest run of word characters, which must not be
  empty and must be followed by a colon (a shorter run would be followed by a word
  character, so backtracking finds nothing more). \<open>match_here\<close> is a match that
  starts at the first character: the second group and the text after the match.
\<close>

definition match_ns :: "string \<Rightarrow> (string \<times> string) option" where
  "match_ns r =
     (let w = takeWhile is_word_char r; rest = dropWhile is_word_char r in
      if w \<noteq> [] \<and> take 1 rest = '':'' then Some (w, drop 1 rest) else None)"

definition match_here :: "string \<Rightarrow> (string \<times> string) option" where
  \<open>match_here s =
     (if take 1 s = ''<'' then match_ns (drop 1 s)
      else if take 10 s = ''typeName="'' then match_ns (drop 10 s)
      else None)\<close>

text \<open>
  The loop \<open>while ((arr = re.exec(xml)) !== null)\<close>: the second groups of the
  successive matches, each search starting where the match before it ended.
\<close>

function re_exec_all :: "string \<Rightarrow> string list" where
  "re_exec_all [] = []"
| "re_exec_all (c # cs) =
     (case match_here (c # cs) of
        Some (ns, rest) \<Rightarrow> ns # re_exec_all rest
      | None \<Rightarrow> re_exec_all cs)"
  by pat_completeness auto

termination
proof -
  have m: "\<And>r w rest. match_ns r = Some (w, rest) \<Longrightarrow> length rest \<le> length r"
  proof -
    fix r w rest
    assume "match_ns r = Some (w, rest)"
    then have "rest = drop 1 (dropWhile is_word_char r)"
      by (auto simp: match_ns_def Let_def split: if_splits)
    then show "length rest \<le> length r"
      using length_dropWhile_le [of is_word_char r] by simp
  qed
  have h: "\<And>s w rest. match_here s = Some (w, rest) \<Longrightarrow> length rest < length s"
  proof -
    fix s w rest
    assume a: "match_here s = Some (w, rest)"
    show "length rest < length s"
    proof (cases "take 1 s = ''<''")
      case True
      then have "s \<noteq> []" by auto
      moreover from a True have "match_ns (drop 1 s) = Some (w, rest)"
        by (simp add: match_here_def)
      from m [OF this] have "length rest \<le> length s - 1" by simp
      ultimately show ?thesis by (cases s) auto
    next
      case False
      with a have t: \<open>take 10 s = ''typeName="''\<close> and "match_ns (drop 10 s) = Some (w, rest)"
        by (auto simp: match_here_def split: if_splits)
      from m [OF this(2)] have "length rest \<le> length s - 10" by simp
      moreover have "length s \<ge> 10"
      proof -
        from t have "length (take 10 s) = 10" by simp
        then show ?thesis by simp
      qed
      ultimately show ?thesis by simp
    qed
  qed
  show ?thesis
    by (relation "measure length") (auto dest: h)
qed

text \<open>\<open>Set.prototype.add\<close> on a set kept in insertion order.\<close>

definition set_add :: "'a \<Rightarrow> 'a list \<Rightarrow> 'a list" where
  "set_add x xs = (if x \<in> set xs then xs else xs @ [x])"

definition allNamespaces :: "jsval \<Rightarrow> string list" where
  "allNamespaces xml = foldl (\<lambda>acc ns. set_add ns acc) [] (re_exec_all (to_string xml))"

text \<open>The inner function \<open>makeNsAssignment\<close>, on the object \<open>attrs\<close> it assigns to.\<close>

definition makeNsAssignment ::
  "string \<Rightarrow> jsval \<Rightarrow> (string \<times> jsval) list \<Rightarrow> (string \<times> jsval) list" where
  "makeNsAssignment ns uri attrsObj = obj_set (''xmlns:'' @ ns) uri attrsObj"

definition generateNsAssignments :: "jsval \<Rightarrow> jsval \<Rightarrow> error + (string \<times> jsval) list" where
  "generateNsAssignments nsAssignments xml =
     andThen (object_keys nsAssignments) (\<lambda>keys.
       let declared = foldl (\<lambda>a ns. makeNsAssignment ns (lookup (own_entries nsAssignments) ns) a)
                        [] keys;
           allNs = allNamespaces xml;
           with_fes = (if ''fes'' \<in> set allNs
                       then makeNsAssignment ''fes'' (JStr ''http://www.opengis.net/fes/2.0'') declared
                       else declared);
           attrsObj =
             makeNsAssignment ''wfs'' (JStr ''http://www.opengis.net/wfs/2.0'')
               (makeNsAssignment ''gml'' (JStr ''http://www.opengis.net/gml/3.2'')
                 (makeNsAssignment ''xsi'' (JStr ''http://www.w3.org/2001/XMLSchema-instance'')
                    with_fes))
       in case find (\<lambda>ns. \<not> truthy (lookup attrsObj (''xmlns:'' @ ns))) allNs of
            Some ns \<Rightarrow> Inl (Error (''unassigned namespace '' @ ns))
          | None \<Rightarrow> Inr attrsObj)"

text \<open>
  \<open>generateSchemaLines\<close> stores the WFS entry in the caller's object and joins every
  entry and all entries with a newline. The bundle is a module, hence strict code:
  storing a property in a primitive value is a \<open>TypeError\<close>.
\<close>

definition generateSchemaLines :: "jsval \<Rightarrow> error + string" where
  "generateSchemaLines schemaLocations0 =
     (let schemaLocations = default_obj schemaLocations0;
          entry = (''http://www.opengis.net/wfs/2.0'',
                   JStr ''http://schemas.opengis.net/wfs/2.0/wfs.xsd'');
          lines = (\<lambda>kvs. Inr (join_str ''\<newline>''
                               (map (\<lambda>(k, v). array_join ''\<newline>'' [JStr k, v]) kvs)))
      in case schemaLocations of
           JObj kvs \<Rightarrow> lines (obj_set (fst entry) (snd entry) kvs)
         | JArr xs \<Rightarrow> lines (obj_set (fst entry) (snd entry) (own_entries (JArr xs)))
         | JError m \<Rightarrow> lines [entry]
         | JBuiltin t \<Rightarrow> lines [entry]
         | _ \<Rightarrow> Inl TypeError)"

section \<open>Features as GML\<close>

text \<open>
  The body \<open>_loop\<close> of the loop of \<open>translateFeatures\<close>, in two parts: the text
  \<open>fields\<close> of one feature, then the element named after the layer that wraps it and
  is appended to \<open>inner\<close>.
\<close>

definition feature_fields ::
  "jsval \<Rightarrow> jsval \<Rightarrow> jsval \<Rightarrow> jsval \<Rightarrow> jsval \<Rightarrow> jsval \<Rightarrow> jsval \<Rightarrow> error + string" where
  "feature_fields feature ns geometry_name properties whitelist srsName srsDimension =
     andThen
       (if truthy geometry_name then
          andThen (get feature ''geometry'') (\<lambda>geometry.
          andThen (geomToGml geometry (JStr [])
                     (JObj [(''srsName'', srsName), (''srsDimension'', srsDimension)])) (\<lambda>gml.
            tag ns geometry_name [] gml))
        else Inr [])
       (\<lambda>fields.
          useWhitelistIfAvailable whitelist properties
            (\<lambda>prop val fields.
               if val = JNull then Inr fields
               else
                 andThen (get properties (to_string prop)) (\<lambda>pv.
                 andThen (tag ns prop [] (escape pv)) (\<lambda>t. Inr (fields @ t))))
            fields)"

definition loop_body :: "jsval \<Rightarrow> jsval \<Rightarrow> jsval \<Rightarrow> jsval \<Rightarrow> string \<Rightarrow> error + string" where
  "loop_body feature params srsName srsDimension inner =
     andThen (unpack feature params
                [''ns'', ''layer'', ''geometry_name'', ''properties'', ''id'', ''whitelist''])
       (\<lambda>u.
     andThen (get u ''ns'') (\<lambda>ns.
     andThen (get u ''layer'') (\<lambda>layer.
     andThen (get u ''geometry_name'') (\<lambda>geometry_name.
     andThen (get u ''properties'') (\<lambda>properties.
     andThen (get u ''id'') (\<lambda>the_id.
     andThen (get u ''whitelist'') (\<lambda>whitelist.
     andThen (feature_fields feature ns geometry_name properties whitelist srsName srsDimension)
       (\<lambda>fields.
     andThen (tag ns layer [(''gml:id'', id1 layer the_id)] (JStr fields))
       (\<lambda>t. Inr (inner @ t))))))))))"

fun translate_loop ::
  "jsval list \<Rightarrow> jsval \<Rightarrow> jsval \<Rightarrow> jsval \<Rightarrow> string \<Rightarrow> error + string" where
  "translate_loop [] params srsName srsDimension inner = Inr inner"
| "translate_loop (feature # features) params srsName srsDimension inner =
     (case loop_body feature params srsName srsDimension inner of
        Inl e \<Rightarrow> Inl e
      | Inr inner' \<Rightarrow> translate_loop features params srsName srsDimension inner')"

definition translateFeatures :: "jsval list \<Rightarrow> jsval \<Rightarrow> error + string" where
  "translateFeatures features params0 =
     (let params = default_obj params0 in
      andThen (get params ''srsName'') (\<lambda>srsName.
      andThen (get params ''srsDimension'') (\<lambda>srsDimension.
        translate_loop features params srsName srsDimension [])))"

section \<open>Actions\<close>

text \<open>
  \<open>console.warn\<close> writes to the console only; the branches that warn are the ones
  that return the empty string.
\<close>

definition Insert :: "jsval \<Rightarrow> jsval \<Rightarrow> error + string" where
  "Insert features0 params0 =
     (let params = default_obj params0 in
      andThen (array features0) (\<lambda>features.
      andThen (get params ''inputFormat'') (\<lambda>inputFormat.
      andThen (get params ''srsName'') (\<lambda>srsName.
      andThen (get params ''handle'') (\<lambda>handle.
        if features = [] then Inr []
        else
          andThen (translateFeatures features params) (\<lambda>toInsert.
            tag (JStr ''wfs'') (JStr ''Insert'')
              [(''inputFormat'', inputFormat), (''srsName'', srsName), (''handle'', handle)]
              (JStr toInsert)))))))"

definition makeKvp :: "jsval \<Rightarrow> jsval \<Rightarrow> jsval \<Rightarrow> error + string" where
  "makeKvp prop val action =
     andThen (if val = JNull then wfs ''Value'' [(''xsi:nil'', JBool True)] (JStr [])
              else if val \<noteq> JUndefined then wfs ''Value'' [] val
              else Inr [])
       (\<lambda>v.
     andThen (wfs ''ValueReference'' [(''action'', action)] prop) (\<lambda>reference.
       wfs ''Property'' [] (JStr (reference @ v))))"

text \<open>
  The text \<open>fields\<close> that \<open>Update\<close> builds from \<open>params.properties\<close>: the call of
  \<open>useWhitelistIfAvailable\<close> with the callback that appends \<open>makeKvp(k, escape(v))\<close>.
\<close>

definition update_fields :: "jsval \<Rightarrow> jsval \<Rightarrow> error + string" where
  "update_fields whitelist properties =
     useWhitelistIfAvailable whitelist properties
       (\<lambda>k v fields. andThen (makeKvp k (escape v) JUndefined) (\<lambda>kvp. Inr (fields @ kvp)))
       []"

text \<open>
  The statement \<open>if (geometry_name) fields += makeKvp(geometry_name, tag(...))\<close> of
  \<open>Update\<close>, which appends the geometry to the text \<open>fields\<close>.
\<close>

definition update_geometry ::
  "jsval \<Rightarrow> jsval \<Rightarrow> jsval \<Rightarrow> jsval \<Rightarrow> string \<Rightarrow> error + string" where
  "update_geometry ns geometry_name srsName params fields =
     (if truthy geometry_name then
        andThen (get params ''geometry'') (\<lambda>geometry.
        andThen (geomToGml geometry (JStr []) (JObj [(''srsName'', srsName)])) (\<lambda>gml.
        andThen (tag ns geometry_name [] gml) (\<lambda>t.
        andThen (makeKvp geometry_name (JStr t) JUndefined) (\<lambda>kvp.
          Inr (fields @ kvp)))))
      else Inr fields)"

text \<open>The branch of \<open>Update\<close> taken when \<open>params.properties\<close> is truthy.\<close>

definition Update_bulk :: "jsval list \<Rightarrow> jsval \<Rightarrow> error + string" where
  "Update_bulk features params =
     andThen (get params ''inputFormat'') (\<lambda>inputFormat.
     andThen (get params ''filter'') (\<lambda>filter0.
     andThen (get params ''typeName'') (\<lambda>typeName0.
     andThen (get params ''whitelist'') (\<lambda>whitelist.
     andThen (unpack (js_or (index features 0) (JObj [])) params
                [''srsName'', ''ns'', ''layer'', ''geometry_name'']) (\<lambda>u.
     andThen (get u ''srsName'') (\<lambda>srsName.
     andThen (get u ''ns'') (\<lambda>ns.
     andThen (get u ''layer'') (\<lambda>layer.
     andThen (get u ''geometry_name'') (\<lambda>geometry_name.
     andThen (typeName ns layer typeName0) (\<lambda>typeName1.
     andThen (filter_js filter0 features params) (\<lambda>filter1.
       if \<not> truthy filter1 \<and> features = [] then Inr []
       else
         andThen (get params ''properties'') (\<lambda>properties.
         andThen (update_fields whitelist properties) (\<lambda>fields.
         andThen (update_geometry ns geometry_name srsName params fields) (\<lambda>fields.
           wfs ''Update''
             [(''inputFormat'', inputFormat), (''srsName'', srsName),
              (''typeName'', typeName1)]
             (JStr (fields @ to_string filter1))))))))))))))))"

text \<open>\<open>Object.assign(target, source)\<close> on the property list of the target.\<close>

definition object_assign :: "(string \<times> jsval) list \<Rightarrow> jsval \<Rightarrow> (string \<times> jsval) list" where
  "object_assign target source =
     foldl (\<lambda>t (k, v). obj_set k v t) target (own_entries source)"

text \<open>
  \<open>Update\<close> calls itself once per feature when \<open>params.properties\<close> is falsy. The first
  argument bounds the depth of these calls, as the call stack of the engine does:
  at depth zero the call is the engine's \<open>RangeError\<close>.
\<close>

fun Update :: "nat \<Rightarrow> jsval \<Rightarrow> jsval \<Rightarrow> error + string" where
  "Update 0 features0 params0 = Inl RangeError"
| "Update (Suc depth) features0 params0 =
     (let params = default_obj params0 in
      (case array features0 of
         Inl e \<Rightarrow> Inl e
       | Inr features \<Rightarrow>
          (case get params ''properties'' of
             Inl e \<Rightarrow> Inl e
           | Inr properties \<Rightarrow>
               if truthy properties then Update_bulk features params
               else
                 (case map_res
                         (\<lambda>f. case get f ''properties'' of
                                 Inl e \<Rightarrow> Inl e
                               | Inr f_properties \<Rightarrow>
                                   Update depth f
                                     (JObj (object_assign (object_assign [] params)
                                              (JObj [(''properties'', f_properties)]))))
                         features of
                    Inl e \<Rightarrow> Inl e
                  | Inr parts \<Rightarrow> Inr (concat parts)))))"

definition Delete :: "jsval \<Rightarrow> jsval \<Rightarrow> error + string" where
  "Delete features0 params0 =
     (let params = default_obj params0 in
      andThen (array features0) (\<lambda>features.
      andThen (get params ''filter'') (\<lambda>filter0.
      andThen (get params ''typeName'') (\<lambda>typeName0.
      andThen (unpack (js_or (index features 0) (JObj [])) params [''layer'', ''ns'']) (\<lambda>u.
      andThen (get u ''ns'') (\<lambda>ns.
      andThen (get u ''layer'') (\<lambda>layer.
      andThen (typeName ns layer typeName0) (\<lambda>typeName1.
      andThen (filter_js filter0 features params) (\<lambda>filter1.
        wfs ''Delete'' [(''typeName'', typeName1)] filter1)))))))))"

section \<open>Transactions\<close>

definition is_digit :: "char \<Rightarrow> bool" where
  "is_digit c = (c \<in> set ''0123456789'')"

text \<open>
  The regular expression \<open>/2\.0\.\d+/\<close>, which has no anchors: \<open>version_here\<close> is a
  match that starts at the first character, \<open>version_re\<close> a match anywhere.
\<close>

definition version_here :: "string \<Rightarrow> bool" where
  "version_here s =
     (take 4 s = ''2.0.'' \<and> (case drop 4 s of [] \<Rightarrow> False | d # _ \<Rightarrow> is_digit d))"

fun version_re :: "string \<Rightarrow> bool" where
  "version_re [] = False"
| "version_re (c # cs) = (version_here (c # cs) \<or> version_re cs)"

definition is_string :: "jsval \<Rightarrow> bool" where
  "is_string v = (case v of JStr s \<Rightarrow> True | _ \<Rightarrow> False)"

fun copy_params ::
  "jsval \<Rightarrow> string list \<Rightarrow> (string \<times> jsval) list \<Rightarrow> error + (string \<times> jsval) list" where
  "copy_params params [] attrsObj = Inr attrsObj"
| "copy_params params (param # rest) attrsObj =
     (case get params param of
        Inl e \<Rightarrow> Inl e
      | Inr v \<Rightarrow>
          copy_params params rest (if truthy v then obj_set param v attrsObj else attrsObj))"

text \<open>The actions of the three branches of \<open>Transaction\<close>, or its error.\<close>

definition finalActions ::
  "nat \<Rightarrow> jsval \<Rightarrow> jsval \<Rightarrow> jsval \<Rightarrow> jsval \<Rightarrow> jsval \<Rightarrow> error + string" where
  "finalActions depth actions params toInsert toUpdate toDelete =
     (case actions of
        JArr xs \<Rightarrow>
          if list_all is_string xs then Inr (array_join [] xs)
          else if list_ex truthy [toInsert, toUpdate, toDelete] then
            andThen (Insert toInsert params) (\<lambda>i.
            andThen (Update depth toUpdate params) (\<lambda>u.
            andThen (Delete toDelete params) (\<lambda>d. Inr (i @ u @ d))))
          else Inl (ErrorJSON ''unexpected input: '' actions)
      | JStr s \<Rightarrow> Inr s
      | _ \<Rightarrow>
          if list_ex truthy [toInsert, toUpdate, toDelete] then
            andThen (Insert toInsert params) (\<lambda>i.
            andThen (Update depth toUpdate params) (\<lambda>u.
            andThen (Delete toDelete params) (\<lambda>d. Inr (i @ u @ d))))
          else Inl (ErrorJSON ''unexpected input: '' actions))"

definition Transaction :: "nat \<Rightarrow> jsval \<Rightarrow> jsval \<Rightarrow> error + string" where
  "Transaction depth actions params0 =
     (let params = default_obj params0 in
      andThen (get params ''version'') (\<lambda>version.
      andThen (get params ''nsAssignments'') (\<lambda>nsAssignments0.
      let nsAssignments = default_obj nsAssignments0;
          ref = js_or actions (JObj []) in
      andThen (get ref ''insert'') (\<lambda>toInsert.
      andThen (get ref ''update'') (\<lambda>toUpdate.
      andThen (get ref ''delete'') (\<lambda>toDelete.
      andThen (finalActions depth actions params toInsert toUpdate toDelete) (\<lambda>final.
      andThen (generateNsAssignments nsAssignments actions) (\<lambda>nsAttrs.
      andThen (get params ''schemaLocations'') (\<lambda>schemaLocations.
      andThen (generateSchemaLines schemaLocations) (\<lambda>schemaLines.
      andThen (copy_params params [''srsName'', ''lockId'', ''releaseAction'', ''handle'']
                 (obj_set ''version''
                    (if version_re (to_string (js_or version (JStr []))) then version
                     else JStr ''2.0.0'')
                    (obj_set ''service'' (JStr ''WFS'')
                       (obj_set ''xsi:schemaLocation'' (JStr schemaLines) nsAttrs))))
        (\<lambda>attrsObj. wfs ''Transaction'' attrsObj (JStr final))))))))))))"

section \<open>Notions used in the statements\<close>

text \<open>\<open>occurs_in sub s\<close>: the text \<open>sub\<close> occurs in \<open>s\<close>.\<close>

definition occurs_in :: "string \<Rightarrow> string \<Rightarrow> bool" where
  "occurs_in sub s = list_ex (\<lambda>i. take (length sub) (drop i s) = sub) [0..<Suc (length s)]"

text \<open>The first truthy value of a chain \<open>a || b || ... || ''\<close>.\<close>

definition first_truthy :: "jsval list \<Rightarrow> jsval" where
  "first_truthy vs = (case find truthy vs of Some v \<Rightarrow> v | None \<Rightarrow> JStr [])"

text \<open>A property read on a value that is neither \<open>undefined\<close> nor \<open>null\<close>.\<close>

definition read_prop :: "jsval \<Rightarrow> string \<Rightarrow> jsval" where
  "read_prop v k = (case get v k of Inr x \<Rightarrow> x | Inl e \<Rightarrow> JUndefined)"

text \<open>The feature and the two option bags of the end-to-end example.\<close>

definition point_feature :: jsval where
  "point_feature =
     JObj [(''id'', JStr ''1''),
           (''geometry'', JObj [(''type'', JStr ''Point''),
                               (''coordinates'', JArr [JNum 1, JNum 2])]),
           (''properties'', JObj [(''name'', JStr ''a'')])]"

definition options_geometryName :: jsval where
  "options_geometryName =
     JObj [(''ns'', JStr ''tiger''), (''layer'', JStr ''poi''), (''geometryName'', JStr ''geom'')]"

definition options_geometry_name :: jsval where
  "options_geometry_name =
     JObj [(''ns'', JStr ''tiger''), (''layer'', JStr ''poi''), (''geometry_name'', JStr ''geom'')]"

text \<open>The options of the example with an entry \<open>coordinateOrder: false\<close>.\<close>

definition options_coordinateOrder_false :: jsval where
  "options_coordinateOrder_false =
     JObj [(''ns'', JStr ''tiger''), (''layer'', JStr ''poi''), (''geometry_name'', JStr ''geom''),
           (''coordinateOrder'', JBool False)]"

text \<open>
  The value \<open>unpack\<close> stores under a name, for a feature and options that are objects
  (given by their properties).
\<close>

definition resolved :: "(string \<times> jsval) list \<Rightarrow> (string \<times> jsval) list \<Rightarrow> string \<Rightarrow> jsval" where
  "resolved feature params arg =
     (if arg = ''layer'' then
        first_truthy [read_prop (js_or (lookup params ''layer'') (JObj [])) ''id'',
                      lookup params ''layer'',
                      read_prop (js_or (lookup feature ''layer'') (JObj [])) ''id'',
                      lookup feature ''layer'']
      else if arg \<in> {''properties'', ''geometry'', ''id''} then
        first_truthy [read_prop (JObj params) arg, read_prop (JObj feature) arg]
      else first_truthy [read_prop (JObj feature) arg, read_prop (JObj params) arg])"






text \<open>A feature without a layer, and options that name none.\<close>

definition feature_without_layer :: jsval where
  "feature_without_layer =
     JObj [(''id'', JStr ''1''), (''properties'', JObj [(''name'', JStr ''a'')])]"

definition options_ns_only :: jsval where
  "options_ns_only = JObj [(''ns'', JStr ''tiger'')]"

text \<open>
  The URI that the namespace step assigns to a prefix, given the declared
  assignments and the prefixes found in the text: the three fixed defaults, the
  \<open>fes\<close> default when \<open>fes\<close> was found, the declared value otherwise.
\<close>

definition ns_uri :: "(string \<times> jsval) list \<Rightarrow> string list \<Rightarrow> string \<Rightarrow> jsval" where
  "ns_uri declared found p =
     (if p = ''wfs'' then JStr ''http://www.opengis.net/wfs/2.0''
      else if p = ''gml'' then JStr ''http://www.opengis.net/gml/3.2''
      else if p = ''xsi'' then JStr ''http://www.w3.org/2001/XMLSchema-instance''
      else if p = ''fes'' \<and> ''fes'' \<in> set found then JStr ''http://www.opengis.net/fes/2.0''
      else lookup declared p)"

text \<open>
  A prefix is used in a text when it is a non-empty run of word characters that
  stands between \<open><\<close> or \<open>typeName="\<close> and a colon.
\<close>

definition prefix_used :: "string \<Rightarrow> string \<Rightarrow> bool" where
  \<open>prefix_used p text =
     (p \<noteq> [] \<and> list_all is_word_char p
      \<and> (occurs_in (''<'' @ p @ '':'') text \<or> occurs_in (''typeName="'' @ p @ '':'') text))\<close>

text \<open>
  The second groups of the matches that start at any position of the text, whether
  they overlap or not (for the proof that the loop of \<open>re.exec\<close> misses none).
\<close>

fun all_matches :: "string \<Rightarrow> string list" where
  "all_matches [] = []"
| "all_matches (c # cs) =
     (case match_here (c # cs) of
        Some (ns, rest) \<Rightarrow> ns # all_matches cs
      | None \<Rightarrow> all_matches cs)"

text \<open>The object that \<open>generateNsAssignments\<close> has built when it reaches its check.\<close>

definition final_attrs :: "(string \<times> jsval) list \<Rightarrow> string list \<Rightarrow> (string \<times> jsval) list" where
  "final_attrs declared found =
     makeNsAssignment ''wfs'' (JStr ''http://www.opengis.net/wfs/2.0'')
       (makeNsAssignment ''gml'' (JStr ''http://www.opengis.net/gml/3.2'')
         (makeNsAssignment ''xsi'' (JStr ''http://www.w3.org/2001/XMLSchema-instance'')
            (if ''fes'' \<in> set found
             then makeNsAssignment ''fes'' (JStr ''http://www.opengis.net/fes/2.0'')
                    (foldl (\<lambda>a ns. makeNsAssignment ns (lookup declared ns) a) []
                       (map fst declared))
             else foldl (\<lambda>a ns. makeNsAssignment ns (lookup declared ns) a) []
                    (map fst declared))))"

text \<open>
  A version is of the form \<open>2.0.x\<close> when it is \<open>2.0.\<close> followed by digits and nothing
  else (\<open>is_2_0_x\<close>). What the expression of the code tests is less: that the text
  contains \<open>2.0.\<close> followed by a digit somewhere (\<open>has_2_0_x\<close>).
\<close>

definition has_2_0_x :: "string \<Rightarrow> bool" where
  "has_2_0_x v = list_ex (\<lambda>d. occurs_in (''2.0.'' @ [d]) v) ''0123456789''"

definition is_2_0_x :: "string \<Rightarrow> bool" where
  "is_2_0_x v = (take 4 v = ''2.0.'' \<and> drop 4 v \<noteq> [] \<and> list_all is_digit (drop 4 v))"

text \<open>
  The text of the \<open>version\<close> attribute for a supplied value: the (escaped) value when
  its text contains \<open>2.0.\<close> and a digit, \<open>2.0.0\<close> otherwise, also when nothing is
  supplied.
\<close>

definition version_attribute :: "jsval \<Rightarrow> string" where
  "version_attribute version =
     (if has_2_0_x (to_string (js_or version (JStr []))) then to_string (escape version)
      else ''2.0.0'')"


text \<open>Options that supply a version and nothing else.\<close>

definition options_version :: "string \<Rightarrow> jsval" where
  "options_version v = JObj [(''version'', JStr v)]"

section \<open>Basic facts\<close>

lemma andThen_simps [simp]:
  "andThen (Inl e) f = Inl e"
  "andThen (Inr v) f = f v"
  by (simp_all add: andThen_def)

lemma andThen_Inr_iff:
  "andThen m f = Inr y \<longleftrightarrow> (\<exists>x. m = Inr x \<and> f x = Inr y)"
  by (cases m) simp_all

lemma andThen_Inl_iff:
  "andThen m f = Inl e \<longleftrightarrow> m = Inl e \<or> (\<exists>x. m = Inr x \<and> f x = Inl e)"
  by (cases m) simp_all

lemma get_JObj: "get (JObj kvs) k = Inr (read_prop (JObj kvs) k)"
  by (simp add: read_prop_def)

text \<open>
  The names under which the program reads an object with a fixed key: none of them is
  a member of \<open>Object.prototype\<close>, so the read gives the own property.
\<close>

lemma property_static [simp]:
  "property (JObj kvs) ''srsName'' = lookup kvs ''srsName''"
  "property (JObj kvs) ''srsDimension'' = lookup kvs ''srsDimension''"
  "property (JObj kvs) ''gmlIds'' = lookup kvs ''gmlIds''"
  "property (JObj kvs) ''id'' = lookup kvs ''id''"
  "property (JObj kvs) ''type'' = lookup kvs ''type''"
  "property (JObj kvs) ''coordinates'' = lookup kvs ''coordinates''"
  "property (JObj kvs) ''geometries'' = lookup kvs ''geometries''"
  "property (JObj kvs) ''features'' = lookup kvs ''features''"
  "property (JObj kvs) ''layer'' = lookup kvs ''layer''"
  "property (JObj kvs) ''ns'' = lookup kvs ''ns''"
  "property (JObj kvs) ''geometry_name'' = lookup kvs ''geometry_name''"
  "property (JObj kvs) ''properties'' = lookup kvs ''properties''"
  "property (JObj kvs) ''whitelist'' = lookup kvs ''whitelist''"
  "property (JObj kvs) ''inputFormat'' = lookup kvs ''inputFormat''"
  "property (JObj kvs) ''handle'' = lookup kvs ''handle''"
  "property (JObj kvs) ''filter'' = lookup kvs ''filter''"
  "property (JObj kvs) ''typeName'' = lookup kvs ''typeName''"
  "property (JObj kvs) ''geometry'' = lookup kvs ''geometry''"
  "property (JObj kvs) ''version'' = lookup kvs ''version''"
  "property (JObj kvs) ''nsAssignments'' = lookup kvs ''nsAssignments''"
  "property (JObj kvs) ''insert'' = lookup kvs ''insert''"
  "property (JObj kvs) ''update'' = lookup kvs ''update''"
  "property (JObj kvs) ''delete'' = lookup kvs ''delete''"
  "property (JObj kvs) ''schemaLocations'' = lookup kvs ''schemaLocations''"
  "property (JObj kvs) ''lockId'' = lookup kvs ''lockId''"
  "property (JObj kvs) ''releaseAction'' = lookup kvs ''releaseAction''"
  by (simp_all add: property_def lookup_def from_prototype_def object_prototype_functions_def
        split: option.split)

lemma read_prop_layer: "read_prop (JObj kvs) ''layer'' = lookup kvs ''layer''"
  by (simp add: read_prop_def)

lemma lookup_obj_set: "lookup (obj_set k v kvs) k' = (if k' = k then v else lookup kvs k')"
  by (induction kvs) (auto simp: lookup_def)

lemma map_of_obj_set:
  "map_of (obj_set k v kvs) k' = (if k' = k then Some v else map_of kvs k')"
  by (induction kvs) auto

lemma get_read_prop:
  "v \<noteq> JUndefined \<Longrightarrow> v \<noteq> JNull \<Longrightarrow> get v k = Inr (read_prop v k)"
  by (cases v) (simp_all add: read_prop_def)

lemma get_Inr_defined: "get v k = Inr x \<Longrightarrow> v \<noteq> JUndefined \<and> v \<noteq> JNull"
  by auto

lemma default_obj_idem [simp]: "default_obj (default_obj p) = default_obj p"
  by (simp add: default_obj_def)

lemma escape_eq_JNull [simp]: "escape v = JNull \<longleftrightarrow> v = JNull"
  by (cases v) (simp_all add: escape_def)

lemma escape_eq_JUndefined [simp]: "escape v = JUndefined \<longleftrightarrow> v = JUndefined"
  by (cases v) (simp_all add: escape_def)

lemma lookup_Nil [simp]: "lookup [] k = JUndefined"
  by (simp add: lookup_def)

lemma occurs_in_iff: "occurs_in sub s \<longleftrightarrow> (\<exists>pre post. s = pre @ sub @ post)"
proof
  assume "occurs_in sub s"
  then obtain i where i: "take (length sub) (drop i s) = sub"
    by (auto simp: occurs_in_def list_ex_iff)
  have "s = take i s @ take (length sub) (drop i s) @ drop (length sub) (drop i s)"
    by (simp only: append_take_drop_id)
  with i have "s = take i s @ sub @ drop (length sub) (drop i s)" by simp
  then show "\<exists>pre post. s = pre @ sub @ post" by blast
next
  assume "\<exists>pre post. s = pre @ sub @ post"
  then obtain pre post where s: "s = pre @ sub @ post" by blast
  then have "take (length sub) (drop (length pre) s) = sub" by simp
  moreover from s have "length pre < Suc (length s)" by simp
  ultimately show "occurs_in sub s"
    unfolding occurs_in_def list_ex_iff by (metis atLeastLessThan_iff set_upt zero_le)
qed

lemma keys_obj_set: "fst ` set (obj_set k v kvs) = insert k (fst ` set kvs)"
proof (induction kvs)
  case Nil
  show ?case by simp
next
  case (Cons kv kvs)
  obtain k' v' where kv: "kv = (k', v')" by (cases kv)
  show ?case
  proof (cases "k' = k")
    case True
    with kv show ?thesis by simp
  next
    case False
    with kv Cons show ?thesis by (simp add: insert_commute)
  qed
qed

lemma keys_makeNsAssignment:
  "fst ` set (makeNsAssignment ns uri a) = insert (''xmlns:'' @ ns) (fst ` set a)"
  by (simp only: makeNsAssignment_def keys_obj_set)

lemma keys_declared_attrs:
  "fst ` set (foldl (\<lambda>a ns. makeNsAssignment ns (f ns) a) acc nss)
     = fst ` set acc \<union> (\<lambda>p. ''xmlns:'' @ p) ` set nss"
  by (induction nss arbitrary: acc) (auto simp: keys_makeNsAssignment simp del: append.simps)

lemma obj_set_absent: "k \<notin> fst ` set kvs \<Longrightarrow> obj_set k v kvs = kvs @ [(k, v)]"
  by (induction kvs) auto

lemma attrs1_append: "attrs1 (xs @ ys) = attrs1 xs @ attrs1 ys"
  by (simp add: attrs1_def)

section \<open>Coordinate reordering\<close>








text \<open>
  The options offer no way to the flag either: with \<open>coordinateOrder: false\<close> among
  them, the position \<open>[1, 2]\<close> of the example is still written \<open>1 2\<close>.
\<close>

lemma Insert_coordinateOrder_option_ignored:
  \<open>Insert point_feature options_coordinateOrder_false
     = Inr (''<wfs:Insert><tiger:poi gml:id="poi.1">''
            @ ''<tiger:geom><gml:Point><gml:pos>1 2</gml:pos></gml:Point></tiger:geom>''
            @ ''<tiger:name>a</tiger:name></tiger:poi></wfs:Insert>'')\<close>
  by code_simp

section \<open>Unknown geometry types\<close>

lemma geomToGml_unknown_type:
  assumes "get geom ''type'' = Inr t" and "converter (to_string t) = None"
    and "inherited (JObj []) (to_string t) = JUndefined"
  shows "\<exists>m. geomToGml geom gmlId params = Inr (JError m)"
proof -
  from assms(1) have "geom \<noteq> JUndefined" and "geom \<noteq> JNull" by auto
  then obtain c g where "get geom ''coordinates'' = Inr c" and "get geom ''geometries'' = Inr g"
    by (cases geom) auto
  with assms show ?thesis by (simp add: geomToGml_def)
qed

text \<open>
  A type that is the name of a member inherited by the table does not reach \<open>warn\<close>
  either: the inherited function is called. For \<open>toString\<close> the call returns the text
  \<open>[object Undefined]\<close>; for \<open>valueOf\<close> it is a \<open>TypeError\<close>.
\<close>

lemma geomToGml_inherited_type:
  "geomToGml (JObj [(''type'', JStr ''toString''), (''coordinates'', JArr [JNum 1, JNum 2])])
      (JStr []) (JObj [(''srsName'', JUndefined), (''srsDimension'', JUndefined)])
     = Inr (JStr ''[object Undefined]'')"
  "geomToGml (JObj [(''type'', JStr ''valueOf''), (''coordinates'', JArr [JNum 1, JNum 2])])
      (JStr []) (JObj [(''srsName'', JUndefined), (''srsDimension'', JUndefined)])
     = Inl TypeError"
  by code_simp+

text \<open>
  Inside a \<open>GeometryCollection\<close> the inherited function is called as a method of the
  table: for the member \<open>{type: 'hasOwnProperty', coordinates: 'Point'}\<close> it answers
  that \<open>Point\<close> is a key of the table.
\<close>

lemma GeometryCollection_inherited_type:
  "geomToGml
      (JObj [(''type'', JStr ''GeometryCollection''),
             (''geometries'',
              JArr [JObj [(''type'', JStr ''hasOwnProperty''),
                          (''coordinates'', JStr ''Point'')]])])
      (JStr []) (JObj [(''srsName'', JUndefined), (''srsDimension'', JUndefined)])
     = Inr (JStr (''<gml:MultiGeometry><gml:geometryMembers>true''
                  @ ''</gml:geometryMembers></gml:MultiGeometry>''))"
  by code_simp

text \<open>
  C4. For the unrecognised type tag \<open>Circle\<close>, \<open>geomToGml\<close> raises nothing: it returns
  an \<open>Error\<close> object whose message names the tag. (The call is the one
  \<open>translateFeatures\<close> makes: empty id, parameters \<open>srsName\<close> and \<open>srsDimension\<close>.)
\<close>

theorem geomToGml_Circle_returns_Error_object:
  "geomToGml (JObj [(''type'', JStr ''Circle''), (''coordinates'', JArr [JNum 1, JNum 2])])
      (JStr []) (JObj [(''srsName'', JUndefined), (''srsDimension'', JUndefined)])
     = Inr (JError ''unkown: Circle [object Object],,[object Object]'')"
  by code_simp

section \<open>Filters from feature ids\<close>

lemma filter_js_explicit: "truthy flt \<Longrightarrow> filter_js flt features params = Inr flt"
  by (simp add: filter_js_def)

lemma id1_roads_5: "id1 (JStr ''roads'') (JStr ''5'') = JStr ''roads.5''"
  by (simp add: id1_def js_or_def)

lemma id1_other_5: "id1 (JStr ''roads'') (JStr ''other.5'') = JStr ''other.5''"
  by (simp add: id1_def js_or_def)

text \<open>
  Without an explicit filter the options play no part: every predicate is built from
  the empty object and the id of the feature.
\<close>

lemma filter_loop_ignores_layer:
  assumes "\<forall>f \<in> set features. f \<noteq> JUndefined \<and> f \<noteq> JNull"
  shows "filter_loop features params acc =
           Inr (acc @ concat (map (\<lambda>f. idFilter (JObj []) (read_prop f ''id'')) features))"
  using assms
proof (induction features arbitrary: acc)
  case Nil
  show ?case by simp
next
  case (Cons f fs)
  then have "get f ''id'' = Inr (read_prop f ''id'')"
    by (simp add: get_read_prop)
  with Cons show ?case by (simp add: unpack_def)
qed

lemma filter_js_synthesized:
  assumes "\<not> truthy flt" and "\<forall>f \<in> set features. f \<noteq> JUndefined \<and> f \<noteq> JNull"
  shows "filter_js flt features params =
           Inr (JStr (''<fes:Filter>''
                      @ concat (map (\<lambda>f. idFilter (JObj []) (read_prop f ''id'')) features)
                      @ ''</fes:Filter>''))"
  using assms(1) filter_loop_ignores_layer [OF assms(2), of params "[]"]
  by (simp add: filter_js_def)

text \<open>
  C2. For the feature \<open>{id: "5", layer: "roads"}\<close> and no explicit filter, the
  predicate addresses \<open>[object Object].5\<close> and not \<open>roads.5\<close>: the layer given to
  \<open>idFilter\<close> is the object returned by \<open>unpack\<close>, not a layer name.
\<close>

theorem filter_js_rid_object_Object:
  \<open>filter_js JUndefined [JObj [(''id'', JStr ''5''), (''layer'', JStr ''roads'')]]
      (JObj [(''layer'', JStr ''roads'')])
     = Inr (JStr ''<fes:Filter><fes:ResourceId rid="[object Object].5"/></fes:Filter>'')\<close>
  by code_simp

section \<open>Transactions with a single action\<close>

lemma Delete_point_feature:
  \<open>Delete (JArr [point_feature]) options_geometry_name
     = Inr (''<wfs:Delete typeName="tiger:poiType"><fes:Filter>''
            @ ''<fes:ResourceId rid="[object Object].1"/></fes:Filter></wfs:Delete>'')\<close>
  by code_simp

text \<open>
  A bag without \<open>insert\<close> but with \<open>update\<close> or \<open>delete\<close> always fails in this way.
\<close>

lemma Transaction_partial_bag:
  assumes "lookup bag ''insert'' = JUndefined \<or> lookup bag ''insert'' = JNull"
    and "truthy (lookup bag ''update'') \<or> truthy (lookup bag ''delete'')"
    and "params \<noteq> JNull"
  shows "Transaction depth (JObj bag) params = Inl TypeError"
proof -
  let ?p = "default_obj params"
  from assms(3) have "?p \<noteq> JUndefined" "?p \<noteq> JNull" by (simp_all add: default_obj_def)
  then have g: "\<And>k. get ?p k = Inr (read_prop ?p k)" by (rule get_read_prop)
  from assms(1) have "array (lookup bag ''insert'') = Inl TypeError"
    by (auto simp: array_def)
  then have "Insert (lookup bag ''insert'') ?p = Inl TypeError"
    by (simp add: Insert_def)
  with assms(2) have "finalActions depth (JObj bag) ?p (lookup bag ''insert'')
                        (lookup bag ''update'') (lookup bag ''delete'') = Inl TypeError"
    by (auto simp: finalActions_def)
  then show ?thesis
    by (simp add: Transaction_def Let_def g js_or_def)
qed

text \<open>
  C3. \<open>Transaction({delete: [feature]}, options)\<close> does not return: all three builders
  are called, and \<open>Insert(undefined, params)\<close> fails in \<open>array\<close>, which reads
  \<open>undefined.features\<close>. This holds at every depth of the call stack.
\<close>

theorem Transaction_delete_only_TypeError:
  "Transaction depth (JObj [(''delete'', JArr [point_feature])]) options_geometry_name
     = Inl TypeError"
  by (simp add: Transaction_def finalActions_def Insert_def array_def default_obj_def
        js_or_def options_geometry_name_def point_feature_def lookup_def)

section \<open>The end-to-end Insert\<close>

text \<open>
  C5, as stated. With the option spelled \<open>geometryName\<close> the output has no geometry
  element: \<open>translateFeatures\<close> resolves the name \<open>geometry_name\<close>.
\<close>

theorem Insert_geometryName_no_geometry:
  \<open>Insert point_feature options_geometryName
     = Inr (''<wfs:Insert><tiger:poi gml:id="poi.1"><tiger:name>a</tiger:name>''
            @ ''</tiger:poi></wfs:Insert>'')
   \<and> \<not> occurs_in ''<tiger:geom>''
         (''<wfs:Insert><tiger:poi gml:id="poi.1"><tiger:name>a</tiger:name>''
          @ ''</tiger:poi></wfs:Insert>'')\<close>
  by code_simp

text \<open>
  C5, amended. With the option spelled \<open>geometry_name\<close> the Insert of the example is
  the \<open>wfs:Insert\<close> element that holds the feature element with \<open>gml:id="poi.1"\<close>, in
  it the \<open>tiger:geom\<close> element around the \<open>gml:Point\<close> with \<open>gml:pos\<close> \<open>1 2\<close>, then
  the field \<open>tiger:name\<close>.
\<close>

theorem Insert_point_feature:
  \<open>Insert point_feature options_geometry_name
     = Inr (''<wfs:Insert><tiger:poi gml:id="poi.1">''
            @ ''<tiger:geom><gml:Point><gml:pos>1 2</gml:pos></gml:Point></tiger:geom>''
            @ ''<tiger:name>a</tiger:name></tiger:poi></wfs:Insert>'')\<close>
  by code_simp

section \<open>Resolving attributes: precedence\<close>

lemma get_truthy_total: "truthy v \<Longrightarrow> get v k = Inr (read_prop v k)"
  by (cases v) (simp_all add: read_prop_def)

lemma get_js_or_obj: "get (js_or v (JObj [])) k = Inr (read_prop (js_or v (JObj [])) k)"
  by (rule get_truthy_total) (simp add: js_or_def)

lemma first_truthy_Cons: "first_truthy (v # vs) = (if truthy v then v else first_truthy vs)"
  by (simp add: first_truthy_def)

lemma first_truthy_Nil: "first_truthy [] = JStr []"
  by (simp add: first_truthy_def)

lemma Inr_if: "Inr (if c then a else b) = (if c then Inr a else Inr b)"
  by simp

lemma unpack_arg_layer:
  "unpack_arg (JObj feature) (JObj params) ''layer'' =
     Inr (first_truthy [read_prop (js_or (lookup params ''layer'') (JObj [])) ''id'',
                      lookup params ''layer'',
                      read_prop (js_or (lookup feature ''layer'') (JObj [])) ''id'',
                      lookup feature ''layer''])"
  unfolding unpack_arg_def
  by (simp only: refl if_True get_JObj read_prop_layer andThen_simps get_js_or_obj
        first_truthy_Cons first_truthy_Nil js_or_def [of _ "JStr []"] Inr_if cong: if_cong)

lemma unpack_arg_member:
  assumes "arg \<noteq> ''layer''" and "arg \<in> set featureMembers"
  shows "unpack_arg (JObj feature) (JObj params) arg =
           Inr (first_truthy [read_prop (JObj params) arg, read_prop (JObj feature) arg])"
  unfolding unpack_arg_def using assms
  by (simp only: simp_thms if_False if_True get_JObj andThen_simps first_truthy_Cons
        first_truthy_Nil js_or_def [of _ "JStr []"] Inr_if cong: if_cong)

lemma unpack_arg_other:
  assumes "arg \<noteq> ''layer''" and "arg \<notin> set featureMembers"
  shows "unpack_arg (JObj feature) (JObj params) arg =
           Inr (first_truthy [read_prop (JObj feature) arg, read_prop (JObj params) arg])"
  unfolding unpack_arg_def using assms
  by (simp only: simp_thms if_False if_True get_JObj andThen_simps first_truthy_Cons
        first_truthy_Nil js_or_def [of _ "JStr []"] Inr_if cong: if_cong)

lemma featureMembers_iff:
  "arg \<in> set featureMembers \<longleftrightarrow> arg \<in> {''properties'', ''geometry'', ''id''} \<or> arg = ''layer''"
  unfolding featureMembers_def by (simp only: list.set insert_iff empty_iff) blast

lemma unpack_arg_objects:
  "unpack_arg (JObj feature) (JObj params) arg = Inr (resolved feature params arg)"
proof (cases "arg = ''layer''")
  case True
  then show ?thesis
    by (simp only: unpack_arg_layer resolved_def simp_thms if_True)
next
  case False
  show ?thesis
  proof (cases "arg \<in> set featureMembers")
    case True
    with False have "arg \<in> {''properties'', ''geometry'', ''id''}"
      by (simp only: featureMembers_iff) blast
    with False True show ?thesis
      by (simp only: unpack_arg_member resolved_def simp_thms if_False if_True)
  next
    case True': False
    with False have "arg \<notin> {''properties'', ''geometry'', ''id''}"
      by (simp only: featureMembers_iff) blast
    with False True' show ?thesis
      by (simp only: unpack_arg_other resolved_def simp_thms if_False if_True)
  qed
qed

lemma unpack_loop_objects:
  "unpack_loop (JObj feature) (JObj params) args results =
     Inr (JObj (foldl (\<lambda>r arg. obj_set arg (resolved feature params arg) r) results args))"
  by (induction args arbitrary: results) (simp_all add: unpack_arg_objects)

lemma map_of_foldl_obj_set:
  "map_of (foldl (\<lambda>r arg. obj_set arg (f arg) r) results args) a =
     (if a \<in> set args then Some (f a) else map_of results a)"
  by (induction args arbitrary: results) (auto simp: map_of_obj_set)

lemma read_prop_foldl_obj_set:
  assumes "a \<in> set args"
  shows "read_prop (JObj (foldl (\<lambda>r arg. obj_set arg (f arg) r) results args)) a = f a"
  using assms by (simp add: read_prop_def property_def map_of_foldl_obj_set)

text \<open>
  C1, amended. For a feature and options that are objects, the value resolved under a
  requested name is: for \<open>layer\<close>, the first truthy of the options' \<open>layer.id\<close>, the
  options' \<open>layer\<close>, the feature's \<open>layer.id\<close> and the feature's \<open>layer\<close>; for
  \<open>properties\<close>, \<open>geometry\<close> and \<open>id\<close>, the options' value when truthy, else the
  feature's; for every other name, the feature's value when truthy, else the options';
  the empty string when none is truthy. (The value of an object under a name is the
  one that a property read gives.)
\<close>

theorem unpack_precedence:
  assumes "arg \<in> set args"
  shows "andThen (unpack (JObj feature) (JObj params) args) (\<lambda>results. get results arg) =
     Inr (if arg = ''layer'' then
            first_truthy [read_prop (js_or (lookup params ''layer'') (JObj [])) ''id'',
                          lookup params ''layer'',
                          read_prop (js_or (lookup feature ''layer'') (JObj [])) ''id'',
                          lookup feature ''layer'']
          else if arg \<in> {''properties'', ''geometry'', ''id''} then
            first_truthy [read_prop (JObj params) arg, read_prop (JObj feature) arg]
          else first_truthy [read_prop (JObj feature) arg, read_prop (JObj params) arg])"
proof -
  let ?r = "foldl (\<lambda>r arg. obj_set arg (resolved feature params arg) r) [] args"
  have "unpack (JObj feature) (JObj params) args = Inr (JObj ?r)"
    by (simp only: unpack_def unpack_loop_objects)
  then have "andThen (unpack (JObj feature) (JObj params) args) (\<lambda>results. get results arg)
               = Inr (read_prop (JObj ?r) arg)"
    by (simp only: andThen_simps get_JObj)
  also have "read_prop (JObj ?r) arg = resolved feature params arg"
    using assms by (rule read_prop_foldl_obj_set)
  finally have "andThen (unpack (JObj feature) (JObj params) args) (\<lambda>results. get results arg)
               = Inr (resolved feature params arg)" .
  then show ?thesis
    unfolding resolved_def .
qed

theorem unpack_precedence_witness:
  "''id'' \<in> set [''ns'', ''layer'', ''id'']
   \<and> andThen (unpack (JObj [(''id'', JStr ''1''), (''ns'', JStr ''a'')])
                (JObj [(''id'', JStr ''2''), (''ns'', JStr ''b'')]) [''ns'', ''layer'', ''id''])
         (\<lambda>results. get results ''id'') = Inr (JStr ''2'')"
  using unpack_precedence [of "''id''" "[''ns'', ''layer'', ''id'']"
      "[(''id'', JStr ''1''), (''ns'', JStr ''a'')]" "[(''id'', JStr ''2''), (''ns'', JStr ''b'')]"]
  by (simp add: first_truthy_def read_prop_def lookup_def)

text \<open>
  C1, as stated. With \<open>id\<close> and \<open>ns\<close> on both sides, the feature's \<open>id\<close> does not win
  (the options' \<open>"2"\<close> is stored) and the options' \<open>ns\<close> does not win (the feature's
  \<open>"a"\<close> is stored).
\<close>

theorem unpack_feature_id_overruled:
  "unpack (JObj [(''id'', JStr ''1''), (''ns'', JStr ''a'')])
          (JObj [(''id'', JStr ''2''), (''ns'', JStr ''b'')]) [''id'', ''ns'']
     = Inr (JObj [(''id'', JStr ''2''), (''ns'', JStr ''a'')])"
  by code_simp

text \<open>What the loop of \<open>unpack\<close> returns is an object that holds the value of each name.\<close>

lemma unpack_loop_sound:
  "unpack_loop f p args acc = Inr u \<Longrightarrow>
     \<exists>r. u = JObj r \<and> (\<forall>a \<in> set args. unpack_arg f p a = Inr (lookup r a))
                   \<and> (\<forall>a. a \<notin> set args \<longrightarrow> lookup r a = lookup acc a)"
proof (induction args arbitrary: acc)
  case Nil
  then show ?case by auto
next
  case (Cons a0 rest)
  from Cons.prems obtain v where v: "unpack_arg f p a0 = Inr v"
    and loop: "unpack_loop f p rest (obj_set a0 v acc) = Inr u"
    by (cases "unpack_arg f p a0") simp_all
  from Cons.IH [OF loop] obtain r where r: "u = JObj r"
    and inside: "\<forall>a \<in> set rest. unpack_arg f p a = Inr (lookup r a)"
    and outside: "\<forall>a. a \<notin> set rest \<longrightarrow> lookup r a = lookup (obj_set a0 v acc) a"
    by blast
  have "unpack_arg f p a0 = Inr (lookup r a0)"
  proof (cases "a0 \<in> set rest")
    case True
    with inside show ?thesis by blast
  next
    case False
    with outside have "lookup r a0 = v" by (simp add: lookup_obj_set)
    with v show ?thesis by simp
  qed
  moreover have "\<forall>a. a \<notin> set (a0 # rest) \<longrightarrow> lookup r a = lookup acc a"
    using outside by (simp add: lookup_obj_set)
  ultimately show ?case using r inside by simp
qed

section \<open>Bulk update: one property at a time\<close>











section \<open>Insert without a layer name\<close>

lemma unpack_arg_layer_params:
  assumes "unpack_arg f p ''layer'' = Inr l"
  shows "p \<noteq> JUndefined \<and> p \<noteq> JNull"
proof -
  from assms obtain x where "get p ''layer'' = Inr x"
    unfolding unpack_arg_def by (cases "get p ''layer''") simp_all
  then show ?thesis by (rule get_Inr_defined)
qed

lemma tag_falsy_name:
  "\<not> truthy tagName \<Longrightarrow>
     tag ns tagName attrsObj inner =
       Inl (ErrorJSON ''no tag supplied ''
              (JObj [(''ns'', ns), (''tagName'', tagName),
                     (''attrsObj'', JObj attrsObj), (''inner'', inner)]))"
  by (simp add: tag_def)

lemma loop_body_empty_layer:
  assumes "unpack_arg f p ''layer'' = Inr layer" and "\<not> truthy layer"
  shows "\<exists>e. loop_body f p srsName srsDimension inner = Inl e"
proof (cases "unpack f p [''ns'', ''layer'', ''geometry_name'', ''properties'', ''id'', ''whitelist'']")
  case (Inl e)
  then show ?thesis by (simp add: loop_body_def)
next
  case (Inr u)
  from unpack_loop_sound [OF Inr [unfolded unpack_def]] obtain r where u: "u = JObj r"
    and r: "\<forall>a \<in> set [''ns'', ''layer'', ''geometry_name'', ''properties'', ''id'', ''whitelist''].
              unpack_arg f p a = Inr (lookup r a)"
    by blast
  from r have "unpack_arg f p ''layer'' = Inr (lookup r ''layer'')" by simp
  with assms have falsy: "\<not> truthy (lookup r ''layer'')" by simp
  show ?thesis
  proof (cases "feature_fields f (lookup r ''ns'') (lookup r ''geometry_name'')
                  (lookup r ''properties'') (lookup r ''whitelist'') srsName srsDimension")
    case (Inl e)
    with Inr u show ?thesis by (simp add: loop_body_def)
  next
    case fields: (Inr fields)
    with Inr u falsy show ?thesis
      by (simp add: loop_body_def tag_falsy_name)
  qed
qed

lemma translate_loop_fails:
  assumes "f \<in> set fs"
    and "\<And>inner. \<exists>e. loop_body f p srsName srsDimension inner = Inl e"
  shows "\<exists>e. translate_loop fs p srsName srsDimension inner = Inl e"
  using assms(1)
proof (induction fs arbitrary: inner)
  case Nil
  then show ?case by simp
next
  case (Cons g gs)
  show ?case
  proof (cases "loop_body g p srsName srsDimension inner")
    case (Inl e)
    then show ?thesis by simp
  next
    case (Inr inner')
    with assms(2) [of inner] have "g \<noteq> f" by auto
    with Cons.prems have "f \<in> set gs" by simp
    from Cons.IH [OF this, of inner'] Inr show ?thesis by simp
  qed
qed

lemma Insert_fails_A:
  assumes "array features = Inr fs" and "f \<in> set fs"
    and "unpack_arg f (default_obj params) ''layer'' = Inr layer" and "\<not> truthy layer"
  shows "\<exists>e. Insert features params = Inl e"
proof -
  let ?p = "default_obj params"
  from unpack_arg_layer_params [OF assms(3)] have p: "?p \<noteq> JUndefined" "?p \<noteq> JNull"
    by simp_all
  have g: "\<And>k. get ?p k = Inr (read_prop ?p k)"
    using p by (rule get_read_prop)
  from assms(2) have ne: "fs \<noteq> []" by auto
  from translate_loop_fails [OF assms(2), of ?p "read_prop ?p ''srsName''" "read_prop ?p ''srsDimension''" "[]"]
    loop_body_empty_layer [OF assms(3,4)]
  obtain e where "translate_loop fs ?p (read_prop ?p ''srsName'') (read_prop ?p ''srsDimension'') [] = Inl e"
    by blast
  then have "translateFeatures fs ?p = Inl e"
    by (simp add: translateFeatures_def g)
  with assms(1) ne show ?thesis
    by (simp add: Insert_def g)
qed


lemma Insert_first_feature_no_tag:
  assumes "array features = Inr (f # rest)"
    and "unpack_arg f (default_obj params) ''layer'' = Inr layer" and "\<not> truthy layer"
    and "unpack_arg f (default_obj params) ''ns'' = Inr ns"
    and "unpack_arg f (default_obj params) ''geometry_name'' = Inr geometry_name"
    and "unpack_arg f (default_obj params) ''properties'' = Inr properties"
    and "unpack_arg f (default_obj params) ''id'' = Inr the_id"
    and "unpack_arg f (default_obj params) ''whitelist'' = Inr whitelist"
    and "feature_fields f ns geometry_name properties whitelist
           (read_prop (default_obj params) ''srsName'')
           (read_prop (default_obj params) ''srsDimension'') = Inr fields"
  shows "Insert features params =
           Inl (ErrorJSON ''no tag supplied ''
                  (JObj [(''ns'', ns), (''tagName'', layer),
                         (''attrsObj'', JObj [(''gml:id'', id1 layer the_id)]),
                         (''inner'', JStr fields)]))"
proof -
  let ?p = "default_obj params"
  from unpack_arg_layer_params [OF assms(2)] have p: "?p \<noteq> JUndefined" "?p \<noteq> JNull"
    by simp_all
  have g: "\<And>k. get ?p k = Inr (read_prop ?p k)"
    using p by (rule get_read_prop)
  have u: "unpack f ?p [''ns'', ''layer'', ''geometry_name'', ''properties'', ''id'', ''whitelist'']
             = Inr (JObj [(''ns'', ns), (''layer'', layer), (''geometry_name'', geometry_name),
                          (''properties'', properties), (''id'', the_id), (''whitelist'', whitelist)])"
    using assms(2,4-8) by (simp add: unpack_def)
  have "loop_body f ?p (read_prop ?p ''srsName'') (read_prop ?p ''srsDimension'') [] =
          Inl (ErrorJSON ''no tag supplied ''
                  (JObj [(''ns'', ns), (''tagName'', layer),
                         (''attrsObj'', JObj [(''gml:id'', id1 layer the_id)]),
                         (''inner'', JStr fields)]))"
    using assms(3,9) by (simp add: loop_body_def u lookup_def tag_falsy_name)
  then have "translateFeatures (f # rest) ?p =
          Inl (ErrorJSON ''no tag supplied ''
                  (JObj [(''ns'', ns), (''tagName'', layer),
                         (''attrsObj'', JObj [(''gml:id'', id1 layer the_id)]),
                         (''inner'', JStr fields)]))"
    by (simp add: translateFeatures_def g)
  with assms(1) show ?thesis
    by (simp add: Insert_def g)
qed

text \<open>
  C10. When the layer resolved for one of the features is falsy (the empty string
  when neither the feature nor the options have a layer), \<open>Insert\<close> returns nothing: it
  fails. When that feature is the first one and its fields were built, the failure is
  the error of \<open>tag\<close>, \<open>no tag supplied\<close>, raised for the element named after the
  layer.
\<close>

theorem Insert_empty_layer:
  assumes "array features = Inr fs" and "f \<in> set fs"
    and "unpack_arg f (default_obj params) ''layer'' = Inr layer" and "\<not> truthy layer"
  shows "(\<exists>e. Insert features params = Inl e) \<and>
         (fs = f # rest
          \<and> unpack_arg f (default_obj params) ''ns'' = Inr ns
          \<and> unpack_arg f (default_obj params) ''geometry_name'' = Inr geometry_name
          \<and> unpack_arg f (default_obj params) ''properties'' = Inr properties
          \<and> unpack_arg f (default_obj params) ''id'' = Inr the_id
          \<and> unpack_arg f (default_obj params) ''whitelist'' = Inr whitelist
          \<and> feature_fields f ns geometry_name properties whitelist
                (read_prop (default_obj params) ''srsName'')
                (read_prop (default_obj params) ''srsDimension'') = Inr fields
          \<longrightarrow> Insert features params =
                Inl (ErrorJSON ''no tag supplied ''
                       (JObj [(''ns'', ns), (''tagName'', layer),
                              (''attrsObj'', JObj [(''gml:id'', id1 layer the_id)]),
                              (''inner'', JStr fields)])))"
proof (intro conjI impI)
  show "\<exists>e. Insert features params = Inl e"
    using assms by (rule Insert_fails_A)
next
  assume h: "fs = f # rest
          \<and> unpack_arg f (default_obj params) ''ns'' = Inr ns
          \<and> unpack_arg f (default_obj params) ''geometry_name'' = Inr geometry_name
          \<and> unpack_arg f (default_obj params) ''properties'' = Inr properties
          \<and> unpack_arg f (default_obj params) ''id'' = Inr the_id
          \<and> unpack_arg f (default_obj params) ''whitelist'' = Inr whitelist
          \<and> feature_fields f ns geometry_name properties whitelist
                (read_prop (default_obj params) ''srsName'')
                (read_prop (default_obj params) ''srsDimension'') = Inr fields"
  with assms(1) have "array features = Inr (f # rest)" by simp
  from Insert_first_feature_no_tag [OF this assms(3,4)] h
  show "Insert features params =
                Inl (ErrorJSON ''no tag supplied ''
                       (JObj [(''ns'', ns), (''tagName'', layer),
                              (''attrsObj'', JObj [(''gml:id'', id1 layer the_id)]),
                              (''inner'', JStr fields)]))"
    by blast
qed

theorem Insert_empty_layer_witness:
  "Insert feature_without_layer options_ns_only =
     Inl (ErrorJSON ''no tag supplied ''
            (JObj [(''ns'', JStr ''tiger''), (''tagName'', JStr []),
                   (''attrsObj'', JObj [(''gml:id'', JStr ''.1'')]),
                   (''inner'', JStr ''<tiger:name>a</tiger:name>'')]))"
proof -
  let ?f = feature_without_layer and ?p = options_ns_only
  have a: "array ?f = Inr [?f]" by code_simp
  have m: "?f \<in> set [?f]" by simp
  have l: "unpack_arg ?f (default_obj ?p) ''layer'' = Inr (JStr [])" by code_simp
  have t: "\<not> truthy (JStr [])" by simp
  have b: "[?f] = ?f # []
          \<and> unpack_arg ?f (default_obj ?p) ''ns'' = Inr (JStr ''tiger'')
          \<and> unpack_arg ?f (default_obj ?p) ''geometry_name'' = Inr (JStr [])
          \<and> unpack_arg ?f (default_obj ?p) ''properties'' = Inr (JObj [(''name'', JStr ''a'')])
          \<and> unpack_arg ?f (default_obj ?p) ''id'' = Inr (JStr ''1'')
          \<and> unpack_arg ?f (default_obj ?p) ''whitelist'' = Inr (JStr [])
          \<and> feature_fields ?f (JStr ''tiger'') (JStr []) (JObj [(''name'', JStr ''a'')]) (JStr [])
                (read_prop (default_obj ?p) ''srsName'')
                (read_prop (default_obj ?p) ''srsDimension'') = Inr ''<tiger:name>a</tiger:name>''"
    by code_simp
  have i: "id1 (JStr []) (JStr ''1'') = JStr ''.1''" by code_simp
  from Insert_empty_layer [OF a m l t, of "[]" "JStr ''tiger''" "JStr []"
      "JObj [(''name'', JStr ''a'')]" "JStr ''1''" "JStr []" "''<tiger:name>a</tiger:name>''"] b
  have "Insert ?f ?p =
     Inl (ErrorJSON ''no tag supplied ''
            (JObj [(''ns'', JStr ''tiger''), (''tagName'', JStr []),
                   (''attrsObj'', JObj [(''gml:id'', id1 (JStr []) (JStr ''1''))]),
                   (''inner'', JStr ''<tiger:name>a</tiger:name>'')]))"
    by blast
  then show ?thesis by (simp only: i)
qed

section \<open>Namespace assignments\<close>

lemma colon_not_word: "\<not> is_word_char CHR '':''"
  by (simp add: is_word_char_def)

lemma match_ns_word:
  assumes "w \<noteq> []" and "list_all is_word_char w"
  shows "match_ns (w @ CHR '':'' # rest) = Some (w, rest)"
proof -
  from assms(2) have all: "\<forall>c \<in> set w. is_word_char c" by (simp add: list_all_iff)
  then have "takeWhile is_word_char (w @ CHR '':'' # rest) = w"
    by (simp add: takeWhile_tail colon_not_word)
  moreover from all have "dropWhile is_word_char (w @ CHR '':'' # rest) = CHR '':'' # rest"
    by (simp add: dropWhile_append3 colon_not_word)
  ultimately show ?thesis using assms(1) by (simp add: match_ns_def)
qed

lemma match_ns_SomeD:
  assumes "match_ns r = Some (w, rest)"
  shows "r = w @ CHR '':'' # rest \<and> w \<noteq> [] \<and> list_all is_word_char w"
proof -
  from assms have w: "w = takeWhile is_word_char r" and ne: "w \<noteq> []"
    and t: "take 1 (dropWhile is_word_char r) = '':''"
    and rest: "rest = drop 1 (dropWhile is_word_char r)"
    by (auto simp: match_ns_def Let_def split: if_splits)
  from t rest have "dropWhile is_word_char r = CHR '':'' # rest"
    by (cases "dropWhile is_word_char r") simp_all
  with w have "r = w @ CHR '':'' # rest"
    by (metis takeWhile_dropWhile_id)
  moreover from w have "list_all is_word_char w"
    by (simp add: list_all_iff) (meson set_takeWhileD)
  ultimately show ?thesis using ne by simp
qed

lemma match_here_iff:
  \<open>match_here t = Some (p, rest) \<longleftrightarrow>
     p \<noteq> [] \<and> list_all is_word_char p
     \<and> (t = ''<'' @ p @ '':'' @ rest \<or> t = ''typeName="'' @ p @ '':'' @ rest)\<close>
  (is "?L \<longleftrightarrow> ?R")
proof
  assume ?L
  show ?R
  proof (cases "take 1 t = ''<''")
    case True
    then have t: "t = CHR ''<'' # drop 1 t" by (cases t) simp_all
    from \<open>?L\<close> True have "match_ns (drop 1 t) = Some (p, rest)"
      by (simp add: match_here_def)
    from match_ns_SomeD [OF this] t show ?thesis by simp
  next
    case False
    with \<open>?L\<close> have ten: \<open>take 10 t = ''typeName="''\<close>
      and m: "match_ns (drop 10 t) = Some (p, rest)"
      by (auto simp: match_here_def split: if_splits)
    from ten have \<open>t = ''typeName="'' @ drop 10 t\<close>
      by (metis append_take_drop_id)
    with match_ns_SomeD [OF m] show ?thesis by simp
  qed
next
  assume r: ?R
  then have w: "p \<noteq> []" "list_all is_word_char p" by simp_all
  from r consider "t = ''<'' @ p @ '':'' @ rest" | \<open>t = ''typeName="'' @ p @ '':'' @ rest\<close>
    by blast
  then show ?L
  proof cases
    case 1
    with match_ns_word [OF w, of rest] show ?thesis by (simp add: match_here_def)
  next
    case 2
    with match_ns_word [OF w, of rest] show ?thesis by (simp add: match_here_def)
  qed
qed


lemma match_here_inside_word:
  assumes "list_all is_word_char q"
  shows "match_here (q @ CHR '':'' # rest) = None"
proof (rule ccontr)
  assume "match_here (q @ CHR '':'' # rest) \<noteq> None"
  then obtain p r where m: "match_here (q @ CHR '':'' # rest) = Some (p, r)" by auto
  from assms have all: "\<forall>c \<in> set q. is_word_char c" by (simp add: list_all_iff)
  then have tw: "takeWhile is_word_char (q @ CHR '':'' # rest) = q"
    by (simp add: takeWhile_tail colon_not_word)
  from m [unfolded match_here_iff]
  consider "q @ CHR '':'' # rest = ''<'' @ p @ '':'' @ r"
    | \<open>q @ CHR '':'' # rest = ''typeName="'' @ p @ '':'' @ r\<close>
    by blast
  then show False
  proof cases
    case 1
    then have "takeWhile is_word_char (q @ CHR '':'' # rest) = []"
      by (simp add: is_word_char_def)
    with tw have "q = []" by simp
    with 1 show False by simp
  next
    case 2
    then have "takeWhile is_word_char (q @ CHR '':'' # rest) = ''typeName''"
      by (simp add: is_word_char_def)
    with tw have "q = ''typeName''" by simp
    with 2 show False by simp
  qed
qed

lemma all_matches_skip_word:
  "list_all is_word_char q \<Longrightarrow> all_matches (q @ CHR '':'' # rest) = all_matches rest"
proof (induction q)
  case Nil
  have "match_here (CHR '':'' # rest) = None"
    using match_here_inside_word [of "[]" rest] by simp
  then show ?case by simp
next
  case (Cons a q)
  then have "match_here ((a # q) @ CHR '':'' # rest) = None"
    by (intro match_here_inside_word) simp
  with Cons show ?case by simp
qed

lemma all_matches_skip_match:
  assumes "match_here (c # cs) = Some (p, rest)"
  shows "all_matches cs = all_matches rest"
proof -
  from assms [unfolded match_here_iff] have w: "list_all is_word_char p"
    and t: \<open>c # cs = ''<'' @ p @ '':'' @ rest \<or> c # cs = ''typeName="'' @ p @ '':'' @ rest\<close>
    by simp_all
  from t consider "cs = p @ CHR '':'' # rest" | \<open>cs = ''ypeName="'' @ p @ CHR '':'' # rest\<close>
    by auto
  then show ?thesis
  proof cases
    case 1
    with w show ?thesis by (simp add: all_matches_skip_word)
  next
    case 2
    then have "all_matches cs = all_matches (p @ CHR '':'' # rest)"
      by (simp add: match_here_def)
    with w show ?thesis by (simp add: all_matches_skip_word)
  qed
qed

lemma re_exec_all_all_matches: "re_exec_all s = all_matches s"
proof (induction s rule: re_exec_all.induct)
  case 1
  show ?case by simp
next
  case (2 c cs)
  show ?case
  proof (cases "match_here (c # cs)")
    case None
    with 2 show ?thesis by simp
  next
    case (Some m)
    obtain p rest where m: "m = (p, rest)" by (cases m)
    have "re_exec_all rest = all_matches rest"
      by (rule 2(2) [OF Some m [symmetric]])
    moreover from Some m have "all_matches cs = all_matches rest"
      by (intro all_matches_skip_match) simp
    ultimately show ?thesis using Some m by simp
  qed
qed

lemma set_all_matches:
  "p \<in> set (all_matches s) \<longleftrightarrow> (\<exists>pre t rest. s = pre @ t \<and> match_here t = Some (p, rest))"
proof (induction s)
  case Nil
  show ?case by (simp add: match_here_def match_ns_def)
next
  case (Cons c cs)
  show ?case (is "?L \<longleftrightarrow> ?R")
  proof
    assume ?L
    then consider rest where "match_here (c # cs) = Some (p, rest)" | "p \<in> set (all_matches cs)"
      by (auto split: option.splits)
    then show ?R
    proof cases
      case 1
      then have "c # cs = [] @ (c # cs) \<and> match_here (c # cs) = Some (p, rest)" by simp
      then show ?thesis by blast
    next
      case 2
      with Cons obtain pre t rest where "cs = pre @ t" "match_here t = Some (p, rest)" by blast
      then have "c # cs = (c # pre) @ t \<and> match_here t = Some (p, rest)" by simp
      then show ?thesis by blast
    qed
  next
    assume ?R
    then obtain pre t rest where s: "c # cs = pre @ t" and m: "match_here t = Some (p, rest)"
      by blast
    show ?L
    proof (cases pre)
      case Nil
      with s m have "match_here (c # cs) = Some (p, rest)" by simp
      then show ?thesis by simp
    next
      case (Cons a pre')
      with s have "cs = pre' @ t" by simp
      with m Cons.IH have "p \<in> set (all_matches cs)" by blast
      then show ?thesis by (simp split: option.splits)
    qed
  qed
qed

lemma set_foldl_set_add: "set (foldl (\<lambda>acc x. set_add x acc) acc xs) = set acc \<union> set xs"
  by (induction xs arbitrary: acc) (auto simp: set_add_def)

lemma distinct_foldl_set_add:
  "distinct acc \<Longrightarrow> distinct (foldl (\<lambda>acc x. set_add x acc) acc xs)"
  by (induction xs arbitrary: acc) (auto simp: set_add_def)

lemma allNamespaces_iff:
  \<open>p \<in> set (allNamespaces xml) \<longleftrightarrow>
     p \<noteq> [] \<and> list_all is_word_char p
     \<and> (\<exists>pre post. to_string xml = pre @ ''<'' @ p @ '':'' @ post
                   \<or> to_string xml = pre @ ''typeName="'' @ p @ '':'' @ post)\<close>
proof -
  have "p \<in> set (allNamespaces xml) \<longleftrightarrow> p \<in> set (all_matches (to_string xml))"
    by (simp add: allNamespaces_def set_foldl_set_add re_exec_all_all_matches)
  also have "\<dots> \<longleftrightarrow> (\<exists>pre t rest. to_string xml = pre @ t \<and> match_here t = Some (p, rest))"
    by (rule set_all_matches)
  also have "\<dots> \<longleftrightarrow> p \<noteq> [] \<and> list_all is_word_char p
     \<and> (\<exists>pre post. to_string xml = pre @ ''<'' @ p @ '':'' @ post
                   \<or> to_string xml = pre @ ''typeName=\"'' @ p @ '':'' @ post)"
    unfolding match_here_iff by blast
  finally show ?thesis .
qed

lemma lookup_absent: "k \<notin> fst ` set kvs \<Longrightarrow> lookup kvs k = JUndefined"
proof -
  assume "k \<notin> fst ` set kvs"
  then have "map_of kvs k = None" by (simp add: map_of_eq_None_iff)
  then show ?thesis by (simp add: lookup_def)
qed

lemma lookup_makeNsAssignment:
  "lookup (makeNsAssignment ns uri a) (''xmlns:'' @ p) =
     (if p = ns then uri else lookup a (''xmlns:'' @ p))"
  by (simp add: makeNsAssignment_def lookup_obj_set)

lemma lookup_declared_attrs:
  "lookup (foldl (\<lambda>a ns. makeNsAssignment ns (f ns) a) acc nss) (''xmlns:'' @ p) =
     (if p \<in> set nss then f p else lookup acc (''xmlns:'' @ p))"
  by (induction nss arbitrary: acc) (simp_all add: lookup_makeNsAssignment del: append.simps)

lemma declared_attrs:
  "lookup (foldl (\<lambda>a ns. makeNsAssignment ns (lookup declared ns) a) [] (map fst declared))
      (''xmlns:'' @ p) = lookup declared p"
proof (cases "p \<in> fst ` set declared")
  case True
  then show ?thesis
    by (simp add: lookup_declared_attrs del: append.simps)
next
  case False
  then show ?thesis
    by (simp add: lookup_declared_attrs lookup_absent del: append.simps)
qed

lemma lookup_final_attrs:
  "lookup (final_attrs declared found) (''xmlns:'' @ p) = ns_uri declared found p"
  by (simp add: final_attrs_def ns_uri_def lookup_makeNsAssignment declared_attrs
        del: append.simps)

lemma generateNsAssignments_final:
  "generateNsAssignments (JObj declared) xml =
     (case find (\<lambda>ns. \<not> truthy (ns_uri declared (allNamespaces xml) ns)) (allNamespaces xml) of
        Some ns \<Rightarrow> Inl (Error (''unassigned namespace '' @ ns))
      | None \<Rightarrow> Inr (final_attrs declared (allNamespaces xml)))"
proof -
  have "generateNsAssignments (JObj declared) xml =
     (case find (\<lambda>ns. \<not> truthy (lookup (final_attrs declared (allNamespaces xml))
                                     (''xmlns:'' @ ns))) (allNamespaces xml) of
        Some ns \<Rightarrow> Inl (Error (''unassigned namespace '' @ ns))
      | None \<Rightarrow> Inr (final_attrs declared (allNamespaces xml)))"
    by (cases "''fes'' \<in> set (allNamespaces xml)")
       (simp_all add: generateNsAssignments_def object_keys_def Let_def final_attrs_def
          del: append.simps split: option.split)
  then show ?thesis
    by (simp only: lookup_final_attrs)
qed


lemma allNamespaces_prefix_used:
  "p \<in> set (allNamespaces xml) \<longleftrightarrow> prefix_used p (to_string xml)"
  unfolding allNamespaces_iff prefix_used_def occurs_in_iff
  by (simp only: append_assoc) blast

lemma keys_final_attrs:
  "fst ` set (final_attrs declared found) =
     (\<lambda>p. ''xmlns:'' @ p) `
       (fst ` set declared \<union> {''xsi'', ''gml'', ''wfs''}
        \<union> (if ''fes'' \<in> set found then {''fes''} else {}))"
  by (auto simp: final_attrs_def keys_makeNsAssignment keys_declared_attrs simp del: append.simps)

text \<open>
  C8. The prefixes found are exactly the prefixes used in the text after \<open><\<close> or
  \<open>typeName="\<close>. When each of them has a truthy URI (a fixed default for \<open>xsi\<close>,
  \<open>gml\<close> and \<open>wfs\<close>; the \<open>fes\<close> default when \<open>fes\<close> was found; the declared URI
  otherwise), the result maps \<open>xmlns:p\<close> to that URI for every \<open>p\<close> and has a key for
  each declared prefix, for the three defaults, and for \<open>fes\<close> when found. Otherwise the
  call fails with the error \<open>unassigned namespace p\<close> for a found prefix \<open>p\<close> that has
  no truthy URI.
\<close>

theorem generateNsAssignments_defaults_and_failure:
  "(\<forall>p. p \<in> set (allNamespaces xml) \<longleftrightarrow> prefix_used p (to_string xml))
   \<and> (if \<forall>p \<in> set (allNamespaces xml). truthy (ns_uri declared (allNamespaces xml) p)
      then \<exists>attrsObj. generateNsAssignments (JObj declared) xml = Inr attrsObj
            \<and> (\<forall>p. lookup attrsObj (''xmlns:'' @ p) = ns_uri declared (allNamespaces xml) p)
            \<and> fst ` set attrsObj =
                (\<lambda>p. ''xmlns:'' @ p) `
                  (fst ` set declared \<union> {''xsi'', ''gml'', ''wfs''}
                   \<union> (if ''fes'' \<in> set (allNamespaces xml) then {''fes''} else {}))
      else \<exists>p \<in> set (allNamespaces xml). \<not> truthy (ns_uri declared (allNamespaces xml) p)
            \<and> generateNsAssignments (JObj declared) xml
                = Inl (Error (''unassigned namespace '' @ p)))"
proof (rule conjI)
  show "\<forall>p. p \<in> set (allNamespaces xml) \<longleftrightarrow> prefix_used p (to_string xml)"
    by (simp only: allNamespaces_prefix_used simp_thms)
next
  let ?found = "allNamespaces xml"
  show "if \<forall>p \<in> set ?found. truthy (ns_uri declared ?found p)
      then \<exists>attrsObj. generateNsAssignments (JObj declared) xml = Inr attrsObj
            \<and> (\<forall>p. lookup attrsObj (''xmlns:'' @ p) = ns_uri declared ?found p)
            \<and> fst ` set attrsObj =
                (\<lambda>p. ''xmlns:'' @ p) `
                  (fst ` set declared \<union> {''xsi'', ''gml'', ''wfs''}
                   \<union> (if ''fes'' \<in> set ?found then {''fes''} else {}))
      else \<exists>p \<in> set ?found. \<not> truthy (ns_uri declared ?found p)
            \<and> generateNsAssignments (JObj declared) xml
                = Inl (Error (''unassigned namespace '' @ p))"
  proof (cases "find (\<lambda>ns. \<not> truthy (ns_uri declared ?found ns)) ?found")
    case None
    then have all: "\<forall>p \<in> set ?found. truthy (ns_uri declared ?found p)"
      by (simp add: find_None_iff)
    from None have "generateNsAssignments (JObj declared) xml = Inr (final_attrs declared ?found)"
      by (simp add: generateNsAssignments_final)
    with all show ?thesis
      by (simp add: lookup_final_attrs keys_final_attrs del: append.simps)
  next
    case (Some p)
    then have p: "p \<in> set ?found" "\<not> truthy (ns_uri declared ?found p)"
      by (auto simp: find_Some_iff)
    from Some have "generateNsAssignments (JObj declared) xml
                      = Inl (Error (''unassigned namespace '' @ p))"
      by (simp add: generateNsAssignments_final)
    with p show ?thesis by auto
  qed
qed

theorem generateNsAssignments_custom_witness:
  "generateNsAssignments (JObj [(''fes'', JStr ''http://www.opengis.net/fes/2.0'')])
       (JStr ''<custom:a>b</custom:a>'')
     = Inl (Error ''unassigned namespace custom'')"
proof -
  have f: "allNamespaces (JStr ''<custom:a>b</custom:a>'') = [''custom'']"
    by code_simp
  show ?thesis
    using generateNsAssignments_defaults_and_failure
            [of "JStr ''<custom:a>b</custom:a>''" "[(''fes'', JStr ''http://www.opengis.net/fes/2.0'')]",
             THEN conjunct2]
    by (simp add: f ns_uri_def lookup_def)
qed

section \<open>The version of a transaction\<close>

lemma version_here_iff:
  "version_here s \<longleftrightarrow> (\<exists>d post. is_digit d \<and> s = ''2.0.'' @ d # post)"
proof
  assume v: "version_here s"
  then have t: "take 4 s = ''2.0.''" by (simp add: version_here_def)
  from v obtain d post where d: "drop 4 s = d # post" "is_digit d"
    by (auto simp: version_here_def split: list.splits)
  have "s = take 4 s @ drop 4 s" by simp
  with t d have "s = ''2.0.'' @ d # post" by simp
  with d show "\<exists>d post. is_digit d \<and> s = ''2.0.'' @ d # post" by blast
next
  assume "\<exists>d post. is_digit d \<and> s = ''2.0.'' @ d # post"
  then show "version_here s" by (auto simp: version_here_def)
qed

lemma version_re_iff:
  "version_re s \<longleftrightarrow> (\<exists>pre d post. is_digit d \<and> s = pre @ ''2.0.'' @ d # post)"
proof (induction s)
  case Nil
  show ?case by simp
next
  case (Cons c cs)
  show ?case (is "?L \<longleftrightarrow> ?R")
  proof
    assume ?L
    then consider "version_here (c # cs)" | "version_re cs" by auto
    then show ?R
    proof cases
      case 1
      then obtain d post where "is_digit d" "c # cs = [] @ ''2.0.'' @ d # post"
        unfolding version_here_iff by auto
      then show ?thesis by blast
    next
      case 2
      with Cons obtain pre d post where "is_digit d" "cs = pre @ ''2.0.'' @ d # post" by blast
      then have "is_digit d \<and> c # cs = (c # pre) @ ''2.0.'' @ d # post" by simp
      then show ?thesis by blast
    qed
  next
    assume ?R
    then obtain pre d post where d: "is_digit d" and s: "c # cs = pre @ ''2.0.'' @ d # post"
      by blast
    show ?L
    proof (cases pre)
      case Nil
      with d s have "version_here (c # cs)" unfolding version_here_iff by auto
      then show ?thesis by simp
    next
      case (Cons a pre')
      with s have "cs = pre' @ ''2.0.'' @ d # post" by simp
      with d Cons.IH have "version_re cs" by blast
      then show ?thesis by simp
    qed
  qed
qed

lemma version_re_has_2_0_x: "version_re s = has_2_0_x s"
proof -
  have "has_2_0_x s \<longleftrightarrow> (\<exists>d. is_digit d \<and> (\<exists>pre post. s = pre @ (''2.0.'' @ [d]) @ post))"
    unfolding has_2_0_x_def list_ex_iff is_digit_def occurs_in_iff by blast
  also have "\<dots> \<longleftrightarrow> (\<exists>pre d post. is_digit d \<and> s = pre @ ''2.0.'' @ d # post)"
    by auto
  finally show ?thesis by (simp only: version_re_iff)
qed


lemma copy_params_extends:
  assumes "copy_params p ps acc = Inr r" and "distinct ps" and "set ps \<inter> fst ` set acc = {}"
  shows "\<exists>ext. r = acc @ ext"
  using assms
proof (induction ps arbitrary: acc)
  case Nil
  then show ?case by simp
next
  case (Cons param rest)
  from Cons.prems(1) obtain v where v: "get p param = Inr v"
    and loop: "copy_params p rest (if truthy v then obj_set param v acc else acc) = Inr r"
    by (cases "get p param") simp_all
  from Cons.prems(3) have absent: "param \<notin> fst ` set acc" by simp
  from Cons.prems(2) have d: "distinct rest" and fresh: "param \<notin> set rest" by simp_all
  show ?case
  proof (cases "truthy v")
    case True
    with loop absent have l: "copy_params p rest (acc @ [(param, v)]) = Inr r"
      by (simp add: obj_set_absent)
    from Cons.prems(3) fresh have "set rest \<inter> fst ` set (acc @ [(param, v)]) = {}"
      by auto
    from Cons.IH [OF l d this] show ?thesis by auto
  next
    case False
    with loop have l: "copy_params p rest acc = Inr r" by simp
    from Cons.prems(3) have "set rest \<inter> fst ` set acc = {}" by auto
    from Cons.IH [OF l d this] show ?thesis .
  qed
qed

lemma keys_generateNsAssignments:
  assumes "generateNsAssignments nsAssignments xml = Inr attrsObj"
  shows "fst ` set attrsObj \<subseteq> range (\<lambda>p. ''xmlns:'' @ p)"
proof -
  from assms obtain keys where "object_keys nsAssignments = Inr keys"
    by (cases "object_keys nsAssignments") (simp_all add: generateNsAssignments_def)
  with assms have "attrsObj =
      makeNsAssignment ''wfs'' (JStr ''http://www.opengis.net/wfs/2.0'')
        (makeNsAssignment ''gml'' (JStr ''http://www.opengis.net/gml/3.2'')
          (makeNsAssignment ''xsi'' (JStr ''http://www.w3.org/2001/XMLSchema-instance'')
             (if ''fes'' \<in> set (allNamespaces xml)
              then makeNsAssignment ''fes'' (JStr ''http://www.opengis.net/fes/2.0'')
                     (foldl (\<lambda>a ns. makeNsAssignment ns (lookup (own_entries nsAssignments) ns) a)
                        [] keys)
              else foldl (\<lambda>a ns. makeNsAssignment ns (lookup (own_entries nsAssignments) ns) a)
                     [] keys)))"
    by (auto simp: generateNsAssignments_def Let_def split: option.splits)
  then show ?thesis
    by (auto simp: keys_makeNsAssignment keys_declared_attrs simp del: append.simps)
qed

lemma version_value_truthy:
  "truthy (if version_re (to_string (js_or version (JStr []))) then version else JStr ''2.0.0'')"
proof (cases "truthy version")
  case True
  then show ?thesis by simp
next
  case False
  then show ?thesis by (simp add: js_or_def)
qed

lemma Transaction_text:
  assumes "Transaction depth actions params = Inr out"
  shows "\<exists>nsAttrs schemaLines ext final.
           out = ''<wfs:Transaction''
                 @ attrs1 (nsAttrs @ [(''xsi:schemaLocation'', JStr schemaLines),
                                      (''service'', JStr ''WFS''),
                                      (''version'',
                                       if version_re (to_string (js_or
                                            (read_prop (default_obj params) ''version'') (JStr [])))
                                       then read_prop (default_obj params) ''version''
                                       else JStr ''2.0.0'')] @ ext)
                 @ ''>'' @ final @ ''</wfs:Transaction>''"
proof -
  let ?p = "default_obj params"
  from assms obtain version where version: "get ?p ''version'' = Inr version"
    by (cases "get ?p ''version''") (simp_all add: Transaction_def Let_def)
  then have rp: "read_prop ?p ''version'' = version" by (simp add: read_prop_def)
  let ?V = "if version_re (to_string (js_or version (JStr []))) then version else JStr ''2.0.0''"
  from assms version obtain nsAttrs schemaLines attrsObj final where
        ns: "generateNsAssignments
               (default_obj (read_prop ?p ''nsAssignments'')) actions = Inr nsAttrs"
    and cp: "copy_params ?p [''srsName'', ''lockId'', ''releaseAction'', ''handle'']
               (obj_set ''version'' ?V
                  (obj_set ''service'' (JStr ''WFS'')
                     (obj_set ''xsi:schemaLocation'' (JStr schemaLines) nsAttrs))) = Inr attrsObj"
    and out: "wfs ''Transaction'' attrsObj (JStr final) = Inr out"
    by (auto simp: Transaction_def Let_def andThen_Inr_iff read_prop_def)
  from keys_generateNsAssignments [OF ns]
  have k: "fst ` set nsAttrs \<subseteq> range (\<lambda>p. ''xmlns:'' @ p)" .
  then have k1: "''xsi:schemaLocation'' \<notin> fst ` set nsAttrs"
    and k2: "''service'' \<notin> fst ` set nsAttrs"
    and k3: "''version'' \<notin> fst ` set nsAttrs"
    and k4: "''srsName'' \<notin> fst ` set nsAttrs"
    and k5: "''lockId'' \<notin> fst ` set nsAttrs"
    and k6: "''releaseAction'' \<notin> fst ` set nsAttrs"
    and k7: "''handle'' \<notin> fst ` set nsAttrs"
    by auto
  let ?base = "nsAttrs @ [(''xsi:schemaLocation'', JStr schemaLines),
                          (''service'', JStr ''WFS''), (''version'', ?V)]"
  have base: "obj_set ''version'' ?V
                  (obj_set ''service'' (JStr ''WFS'')
                     (obj_set ''xsi:schemaLocation'' (JStr schemaLines) nsAttrs)) = ?base"
    using k1 k2 k3 by (simp add: obj_set_absent)
  have "set [''srsName'', ''lockId'', ''releaseAction'', ''handle''] \<inter> fst ` set ?base = {}"
    using k4 k5 k6 k7 by simp
  from copy_params_extends [OF cp [unfolded base] _ this]
  obtain ext where ext: "attrsObj = ?base @ ext" by auto
  from out ext have "out = ''<wfs:Transaction'' @ attrs1 (?base @ ext)
                           @ ''>'' @ final @ ''</wfs:Transaction>''"
    by (simp add: wfs_def tag_def)
  with rp show ?thesis by (simp only: append_assoc) blast
qed


text \<open>
  What the code does with the version: whenever \<open>Transaction\<close> returns, the element it
  returns carries, right after \<open>service="WFS"\<close>, the attribute \<open>version\<close> whose value
  is the supplied version when the expression finds a match anywhere in its text, and
  \<open>2.0.0\<close> otherwise.
\<close>

lemma Transaction_version_attribute:
  assumes "Transaction depth actions params = Inr out"
  shows \<open>\<exists>pre post.
           out = ''<wfs:Transaction'' @ pre @ '' service="WFS" version="''
                 @ version_attribute (read_prop (default_obj params) ''version'')
                 @ ''"'' @ post\<close>
proof -
  let ?version = "read_prop (default_obj params) ''version''"
  let ?V = "if version_re (to_string (js_or ?version (JStr []))) then ?version else JStr ''2.0.0''"
  from Transaction_text [OF assms] obtain nsAttrs schemaLines ext final where
    out: "out = ''<wfs:Transaction''
                 @ attrs1 (nsAttrs @ [(''xsi:schemaLocation'', JStr schemaLines),
                                      (''service'', JStr ''WFS''), (''version'', ?V)] @ ext)
                 @ ''>'' @ final @ ''</wfs:Transaction>''"
    by blast
  have v: "to_string (escape ?V) = version_attribute ?version"
    by (simp add: version_attribute_def version_re_has_2_0_x escape_def)
  have sv: \<open>attrs1 [(''service'', JStr ''WFS''), (''version'', ?V)]
          = '' service="WFS" version="'' @ version_attribute ?version @ ''"''\<close>
    using version_value_truthy [of ?version] v
    by (simp add: attrs1_def escape_def)
  have "attrs1 (nsAttrs @ [(''xsi:schemaLocation'', JStr schemaLines),
                           (''service'', JStr ''WFS''), (''version'', ?V)] @ ext)
           = attrs1 (nsAttrs @ [(''xsi:schemaLocation'', JStr schemaLines)])
             @ attrs1 [(''service'', JStr ''WFS''), (''version'', ?V)]
             @ attrs1 ext"
    by (simp add: attrs1_def)
  then have \<open>attrs1 (nsAttrs @ [(''xsi:schemaLocation'', JStr schemaLines),
                                (''service'', JStr ''WFS''), (''version'', ?V)] @ ext)
           = attrs1 (nsAttrs @ [(''xsi:schemaLocation'', JStr schemaLines)])
             @ ('' service="WFS" version="'' @ version_attribute ?version @ ''"'')
             @ attrs1 ext\<close>
    by (simp only: sv)
  with out have \<open>out = ''<wfs:Transaction''
                 @ attrs1 (nsAttrs @ [(''xsi:schemaLocation'', JStr schemaLines)])
                 @ '' service="WFS" version="'' @ version_attribute ?version @ ''"''
                 @ (attrs1 ext @ ''>'' @ final @ ''</wfs:Transaction>'')\<close>
    by (simp only: append_assoc)
  then show ?thesis by blast
qed

text \<open>
  The three examples: no version gives \<open>2.0.0\<close>, \<open>2.0.5\<close> is preserved, \<open>1.0.0\<close> is
  overridden.
\<close>

lemma Transaction_version_examples:
  "version_attribute JUndefined = ''2.0.0''"
  "version_attribute (JStr ''2.0.5'') = ''2.0.5''"
  "version_attribute (JStr ''1.0.0'') = ''2.0.0''"
  by code_simp+

text \<open>
  C9. The supplied version \<open>12.0.5\<close> is not of the form \<open>2.0.x\<close>, yet the transaction
  carries \<open>version="12.0.5"\<close> and not \<open>version="2.0.0"\<close>: the expression
  \<open>/2\.0\.\d+/\<close> has no anchors and finds \<open>2.0.5\<close> inside the text.
\<close>

theorem Transaction_version_12_0_5_preserved:
  \<open>\<not> is_2_0_x ''12.0.5''
   \<and> Transaction 0 (JArr []) (options_version ''12.0.5'') =
     Inr (''<wfs:Transaction xmlns:xsi="http://www.w3.org/2001/XMLSchema-instance"''
      @ '' xmlns:gml="http://www.opengis.net/gml/3.2" xmlns:wfs="http://www.opengis.net/wfs/2.0"''
      @ '' xsi:schemaLocation="http://www.opengis.net/wfs/2.0\<newline>''
      @ ''http://schemas.opengis.net/wfs/2.0/wfs.xsd" service="WFS" version="12.0.5">''
      @ ''</wfs:Transaction>'')\<close>
  by code_simp

end
